theory Spec2Isabelle
  imports Complex_Main "HOL-Library.AList" "HOL-Library.Log_Nat"
begin

section \<open>JavaScript values\<close>

text \<open>
  The service handles decoded JSON and the values the payment provider answers with. A
  number inside such a value is kept as the exact rational it denotes (\<open>JNum\<close>) or
  \<open>JNaN\<close>: the program only tests and compares these numbers. The numbers it computes
  with, the amount of an invoice and the running total, are IEEE doubles (the type
  \<open>double\<close> below). \<open>JBuiltin\<close> stands for a member inherited from \<open>Object.prototype\<close> (a
  function object): it is truthy and has none of the data properties the program reads.
\<close>

datatype jsval =
    JUndefined
  | JNull
  | JBool bool
  | JNum rat
  | JNaN
  | JStr string
  | JArr "jsval list"
  | JObj "(string \<times> jsval) list"
  | JBuiltin

text \<open>A thrown \<open>Error\<close> is modelled by its \<open>message\<close>; \<open>Inl\<close> is a throw (or a rejected
  promise), \<open>Inr\<close> a normal return.\<close>

type_synonym 'a thrown = "string + 'a"

fun truthy :: "jsval \<Rightarrow> bool" where
  "truthy JUndefined = False"
| "truthy JNull = False"
| "truthy (JBool b) = b"
| "truthy (JNum n) = (n \<noteq> 0)"
| "truthy JNaN = False"
| "truthy (JStr s) = (s \<noteq> [])"
| "truthy (JArr xs) = True"
| "truthy (JObj kvs) = True"
| "truthy JBuiltin = True"

fun nullish :: "jsval \<Rightarrow> bool" where
  "nullish JUndefined = True"
| "nullish JNull = True"
| "nullish v = False"

text \<open>\<open>v.k\<close> for a value that is neither \<open>null\<close> nor \<open>undefined\<close>, and a name \<open>k\<close> that is
  neither inherited nor built in (every name the program reads statically: \<open>method\<close>,
  \<open>params\<close>, \<open>invoice\<close>, \<open>amount\<close>, \<open>description\<close>, \<open>currency\<close>, \<open>limit\<close>, \<open>offset\<close>,
  \<open>metadata\<close>, \<open>invoice_id\<close> and the fields of the provider's answers).\<close>

fun get_prop :: "jsval \<Rightarrow> string \<Rightarrow> jsval" where
  "get_prop (JObj kvs) k = (case map_of kvs k of Some v \<Rightarrow> v | None \<Rightarrow> JUndefined)"
| "get_prop v k = JUndefined"

text \<open>\<open>v?.k\<close>\<close>

definition opt_chain :: "jsval \<Rightarrow> string \<Rightarrow> jsval" where
  "opt_chain v k = (if nullish v then JUndefined else get_prop v k)"

text \<open>\<open>v.k\<close>, which throws a TypeError on \<open>null\<close> and \<open>undefined\<close>. The message is the
  engine's, written here without its quotation marks.\<close>

definition read_error :: "jsval \<Rightarrow> string \<Rightarrow> string" where
  "read_error v k =
     ''Cannot read properties of '' @ (if v = JNull then ''null'' else ''undefined'') @
     '' (reading '' @ k @ '')''"

definition read_member :: "jsval \<Rightarrow> string \<Rightarrow> jsval thrown" where
  "read_member v k = (if nullish v then Inl (read_error v k) else Inr (get_prop v k))"

text \<open>\<open>const { k, ... } = v\<close>, which throws a TypeError on \<open>null\<close> and \<open>undefined\<close>.\<close>

definition destructure_error :: "jsval \<Rightarrow> string \<Rightarrow> string" where
  "destructure_error v k =
     ''Cannot destructure property '' @ k @ '' as it is '' @
     (if v = JNull then ''null'' else ''undefined'') @ ''.''"

section \<open>IEEE doubles\<close>

text \<open>
  A double is a rational that rounding to binary64 leaves unchanged. \<open>expo x\<close> is the
  binary exponent of a positive \<open>x\<close> (\<open>2^e \<le> x < 2^(e+1)\<close>), \<open>quantum x\<close> the spacing of the
  doubles around \<open>x\<close> (53 significant bits, the exponent not below -1022, so that the
  subnormal numbers are spaced by \<open>2^-1074\<close>), and \<open>round_double\<close> rounds to the nearest
  multiple of the quantum, a tie to the even one. The exponent is not bounded above:
  where the code would have \<open>Infinity\<close> (beyond about \<open>1.8 * 10^308\<close>) the model has a finite
  number, which like \<open>Infinity\<close> exceeds every ceiling that is a double of the code.
\<close>

definition expo :: "rat \<Rightarrow> int" where
  "expo x =
     (case quotient_of x of
        (p, q) \<Rightarrow>
          (let d = bitlen p - bitlen q in if 2 powi d \<le> x then d else d - 1))"

definition quantum :: "rat \<Rightarrow> rat" where
  "quantum x = 2 powi (max (expo x) (- 1022) - 52)"

definition round_half_even :: "rat \<Rightarrow> int" where
  "round_half_even m =
     (let n = \<lfloor>m\<rfloor>; r = m - of_int n
      in if r < 1 / 2 then n else if 1 / 2 < r then n + 1 else if even n then n else n + 1)"

definition round_pos :: "rat \<Rightarrow> rat" where
  "round_pos x = of_int (round_half_even (x / quantum x)) * quantum x"

definition round_double :: "rat \<Rightarrow> rat" where
  "round_double x =
     (if x = 0 then 0 else if 0 < x then round_pos x else - round_pos (- x))"

text \<open>The literal or string that denotes \<open>r\<close>, read as a number; \<open>+\<close> and the comparisons
  of JavaScript on numbers; and \<open>x / y\<close> for a divisor other than zero (the program divides
  by 1000 only).\<close>

typedef double = "{x :: rat. round_double x = x}"
  by (rule exI [of _ 0]) (simp add: round_double_def)

definition to_double :: "rat \<Rightarrow> double" where
  "to_double r = Abs_double (round_double r)"

instantiation double :: "{zero, plus, linorder}"
begin

definition zero_double :: double where
  "zero_double = to_double 0"

definition plus_double :: "double \<Rightarrow> double \<Rightarrow> double" where
  "plus_double x y = to_double (Rep_double x + Rep_double y)"

definition less_eq_double :: "double \<Rightarrow> double \<Rightarrow> bool" where
  "less_eq_double x y = (Rep_double x \<le> Rep_double y)"

definition less_double :: "double \<Rightarrow> double \<Rightarrow> bool" where
  "less_double x y = (Rep_double x < Rep_double y)"

instance
  by standard (auto simp: less_eq_double_def less_double_def Rep_double_inject)

end

definition js_divide :: "double \<Rightarrow> double \<Rightarrow> double" where
  "js_divide x y = to_double (Rep_double x / Rep_double y)"

section \<open>Configuration and external capabilities\<close>

text \<open>The requests \<open>strike.js\<close> sends through \<open>axios\<close>, one constructor per endpoint, with
  the values that vary (the headers are constant).\<close>

datatype http_request =
    PostPaymentQuote jsval jsval
  | PatchExecuteQuote jsval
  | PostInvoice jsval string
  | PostInvoiceQuote jsval
  | GetInvoice jsval
  | GetRatesTicker jsval
  | GetAccount
  | GetBalance
  | GetTransactions jsval jsval

record response_content =
  result_type :: jsval
  resp_error :: "(string \<times> string) option"
  resp_result :: "jsval option"

record nostr_event =
  ev_kind :: nat
  ev_created_at :: int
  ev_content :: string
  ev_tags :: "string list list"
  ev_id :: string
  ev_pubkey :: string
  ev_sig :: string

text \<open>
  \<open>constants.js\<close> and the libraries are not part of the sources: the constants and the
  library calls are parameters. A provider answer may depend on the requests made
  before it, and the clock on the number of responses published so far.
\<close>

record env =
  TOTAL_MAX_SEND_AMOUNT_IN_SATS :: double
  NWC_CONNECTION_PUBKEY :: string
  AUTHORIZED_PUBKEY :: string
  STRIKE_SOURCE_CURRENCY :: jsval
  nip04_decrypt :: "string \<Rightarrow> string thrown"
  JSON_parse :: "string \<Rightarrow> jsval thrown"
  nip04_encrypt :: "response_content \<Rightarrow> string thrown"
  sign_event :: "nostr_event \<Rightarrow> (string \<times> string \<times> string) thrown"
  Date_now :: "nat \<Rightarrow> int"
  bolt11_decode :: "jsval \<Rightarrow> (string \<times> nat) list thrown"
  axios :: "http_request list \<Rightarrow> http_request \<Rightarrow> jsval thrown"
  Big_btc :: "jsval \<Rightarrow> string thrown"
  Date_parse :: "jsval \<Rightarrow> int option"
  ToNumber_ext :: "jsval \<Rightarrow> rat option"
  ToString_ext :: "jsval \<Rightarrow> string"

text \<open>
  \<^item> \<open>nip04_encrypt\<close> is \<open>encrypt(secret, pubkey, JSON.stringify(content))\<close>;
  \<^item> \<open>sign_event\<close> gives the \<open>id\<close>, \<open>pubkey\<close> and \<open>sig\<close> that \<open>finalizeEvent\<close> adds to the
    template;
  \<^item> \<open>bolt11_decode\<close> is \<open>lightBolt11Decoder.decode(invoice).sections\<close>, each section with
    its name and the number its \<open>value\<close> reads as (the amount section holds a decimal
    string of millisatoshis);
  \<^item> \<open>Big_btc x\<close> is \<open>new Big(x).div(1000).div(100_000_000).toFixed(8)\<close>;
  \<^item> \<open>Date_parse\<close> is \<open>Date.parse\<close>, \<open>None\<close> for \<open>NaN\<close>;
  \<^item> \<open>ToNumber_ext\<close> and \<open>ToString_ext\<close> are the language's conversions on the values
    whose conversion goes through text (\<open>None\<close> is \<open>NaN\<close>).
\<close>

fun ToNumber :: "env \<Rightarrow> jsval \<Rightarrow> rat option" where
  "ToNumber E JUndefined = None"
| "ToNumber E JNull = Some 0"
| "ToNumber E (JBool b) = Some (if b then 1 else 0)"
| "ToNumber E (JNum n) = Some n"
| "ToNumber E JNaN = None"
| "ToNumber E v = ToNumber_ext E v"

fun ToString :: "env \<Rightarrow> jsval \<Rightarrow> string" where
  "ToString E (JStr s) = s"
| "ToString E JUndefined = ''undefined''"
| "ToString E JNull = ''null''"
| "ToString E (JBool b) = (if b then ''true'' else ''false'')"
| "ToString E JNaN = ''NaN''"
| "ToString E v = ToString_ext E v"

definition isNaN :: "env \<Rightarrow> jsval \<Rightarrow> bool" where
  "isNaN E v = (ToNumber E v = None)"

text \<open>\<open>v < n\<close> and \<open>v > n\<close> against a number: false when \<open>v\<close> converts to \<open>NaN\<close>.\<close>

definition js_lt :: "env \<Rightarrow> jsval \<Rightarrow> rat \<Rightarrow> bool" where
  "js_lt E v n = (case ToNumber E v of None \<Rightarrow> False | Some x \<Rightarrow> x < n)"

definition js_gt :: "env \<Rightarrow> jsval \<Rightarrow> rat \<Rightarrow> bool" where
  "js_gt E v n = (case ToNumber E v of None \<Rightarrow> False | Some x \<Rightarrow> x > n)"

section \<open>Process state\<close>

text \<open>
  \<open>totalAmountSentInSats\<close> and \<open>cachedInvoiceResults\<close> are the module's two variables. The
  cache is a plain object: \<open>cache_own\<close> holds its own properties and \<open>cache_proto\<close> the
  object that an assignment to the key \<open>__proto__\<close> made its prototype (\<open>None\<close>: still
  \<open>Object.prototype\<close>). The other fields record what the process did: the requests sent
  to the provider, the lines of \<open>logger.error\<close>, the events handed to \<open>relay.publish\<close>,
  and the handlers the dispatcher called.
\<close>

record world =
  totalAmountSentInSats :: double
  cache_own :: "string \<rightharpoonup> jsval"
  cache_proto :: "(string \<times> jsval) list option"
  http_log :: "http_request list"
  error_log :: "string list"
  published :: "nostr_event list"
  invoked :: "string list"

definition initial_world :: world where
  "initial_world =
     \<lparr>totalAmountSentInSats = 0, cache_own = Map.empty, cache_proto = None,
      http_log = [], error_log = [], published = [], invoked = []\<rparr>"

definition logger_error :: "string \<Rightarrow> world \<Rightarrow> world" where
  "logger_error line w = w\<lparr>error_log := error_log w @ [line]\<rparr>"

section \<open>The provider client (\<open>strike.js\<close>)\<close>

text \<open>\<open>const { data } = await axios({...})\<close>: the request is recorded, and the call either
  rejects or answers with \<open>data\<close>.\<close>

definition http :: "env \<Rightarrow> http_request \<Rightarrow> world \<Rightarrow> jsval thrown \<times> world" where
  "http E req w = (axios E (http_log w) req, w\<lparr>http_log := http_log w @ [req]\<rparr>)"

definition createStrikePaymentQuote :: "env \<Rightarrow> jsval \<Rightarrow> world \<Rightarrow> jsval thrown \<times> world" where
  "createStrikePaymentQuote E invoice w =
     (case http E (PostPaymentQuote invoice (STRIKE_SOURCE_CURRENCY E)) w of
        (Inl e, w') \<Rightarrow> (Inl e, w')
      | (Inr data, w') \<Rightarrow> (read_member data ''paymentQuoteId'', w'))"

definition executeStrikePaymentQuote :: "env \<Rightarrow> jsval \<Rightarrow> world \<Rightarrow> jsval thrown \<times> world" where
  "executeStrikePaymentQuote E paymentQuoteId w = http E (PatchExecuteQuote paymentQuoteId) w"

definition payInvoice :: "env \<Rightarrow> jsval \<Rightarrow> world \<Rightarrow> jsval thrown \<times> world" where
  "payInvoice E invoice w =
     (case createStrikePaymentQuote E invoice w of
        (Inl e, w') \<Rightarrow> (Inl e, w')
      | (Inr strikePaymentQuoteId, w') \<Rightarrow> executeStrikePaymentQuote E strikePaymentQuoteId w')"

text \<open>\<open>parseInt(String(Date.parse(dateTime) / 1000))\<close>: the seconds, truncated towards
  zero.\<close>

definition convertDateTimeToUnix :: "env \<Rightarrow> jsval \<Rightarrow> jsval" where
  "convertDateTimeToUnix E dateTime =
     (case Date_parse E dateTime of
        None \<Rightarrow> JNaN
      | Some ms \<Rightarrow> JNum (of_int (if 0 \<le> ms then ms div 1000 else - ((- ms) div 1000))))"

definition createInvoice ::
  "env \<Rightarrow> jsval \<Rightarrow> jsval \<Rightarrow> world \<Rightarrow> (jsval \<times> jsval \<times> jsval) thrown \<times> world" where
  "createInvoice E amountInMillisats description w =
     (case Big_btc E amountInMillisats of
        Inl e \<Rightarrow> (Inl e, w)
      | Inr btcAmount \<Rightarrow>
          (case http E (PostInvoice description btcAmount) w of
             (Inl e, w') \<Rightarrow> (Inl e, w')
           | (Inr data, w') \<Rightarrow>
               if nullish data then (Inl (destructure_error data ''invoiceId''), w')
               else (Inr (get_prop data ''invoiceId'', get_prop data ''state'',
                          convertDateTimeToUnix E (get_prop data ''created'')), w')))"

definition createQuote :: "env \<Rightarrow> jsval \<Rightarrow> world \<Rightarrow> (jsval \<times> jsval) thrown \<times> world" where
  "createQuote E invoiceId w =
     (case http E (PostInvoiceQuote invoiceId) w of
        (Inl e, w') \<Rightarrow> (Inl e, w')
      | (Inr data, w') \<Rightarrow>
          if nullish data then (Inl (destructure_error data ''lnInvoice''), w')
          else (Inr (get_prop data ''lnInvoice'',
                     convertDateTimeToUnix E (get_prop data ''expiration'')), w'))"

text \<open>The answer of \<open>makeInvoice\<close> is \<open>{invoiceId, invoice, state, createdAt, expiresAt}\<close>, in
  this order.\<close>

definition makeInvoice ::
  "env \<Rightarrow> jsval \<Rightarrow> jsval \<Rightarrow> world \<Rightarrow> (jsval \<times> jsval \<times> jsval \<times> jsval \<times> jsval) thrown \<times> world" where
  "makeInvoice E amountInMillisats description w =
     (case createInvoice E amountInMillisats description w of
        (Inl e, w') \<Rightarrow> (Inl e, w')
      | (Inr (invoiceId, state, createdAt), w') \<Rightarrow>
          (case createQuote E invoiceId w' of
             (Inl e, w'') \<Rightarrow> (Inl e, w'')
           | (Inr (invoice, expiresAt), w'') \<Rightarrow>
               (Inr (invoiceId, invoice, state, createdAt, expiresAt), w'')))"

definition lookupInvoice :: "env \<Rightarrow> jsval \<Rightarrow> world \<Rightarrow> jsval thrown \<times> world" where
  "lookupInvoice E invoiceId w =
     (case http E (GetInvoice invoiceId) w of
        (Inl e, w') \<Rightarrow> (Inl e, w')
      | (Inr data, w') \<Rightarrow>
          if nullish data then (Inl (destructure_error data ''state''), w')
          else (Inr (get_prop data ''state''), w'))"

definition getExchangeRates :: "env \<Rightarrow> jsval \<Rightarrow> world \<Rightarrow> jsval thrown \<times> world" where
  "getExchangeRates E currency w =
     http E (GetRatesTicker (if currency = JUndefined then STRIKE_SOURCE_CURRENCY E else currency)) w"

definition getAccountDetails :: "env \<Rightarrow> world \<Rightarrow> jsval thrown \<times> world" where
  "getAccountDetails E w = http E GetAccount w"

definition getBalance :: "env \<Rightarrow> world \<Rightarrow> jsval thrown \<times> world" where
  "getBalance E w = http E GetBalance w"

definition getTransactions :: "env \<Rightarrow> jsval \<Rightarrow> jsval \<Rightarrow> world \<Rightarrow> jsval thrown \<times> world" where
  "getTransactions E limit offset w =
     http E (GetTransactions (if limit = JUndefined then JNum 10 else limit)
                             (if offset = JUndefined then JNum 0 else offset)) w"

section \<open>The request pipeline\<close>

abbreviation UNAUTHORIZED :: string where "UNAUTHORIZED \<equiv> ''UNAUTHORIZED''"
abbreviation NOT_IMPLEMENTED :: string where "NOT_IMPLEMENTED \<equiv> ''NOT_IMPLEMENTED''"
abbreviation QUOTA_EXCEEDED :: string where "QUOTA_EXCEEDED \<equiv> ''QUOTA_EXCEEDED''"
abbreviation PAYMENT_FAILED :: string where "PAYMENT_FAILED \<equiv> ''PAYMENT_FAILED''"
abbreviation INTERNAL :: string where "INTERNAL \<equiv> ''INTERNAL''"
abbreviation NOT_FOUND :: string where "NOT_FOUND \<equiv> ''NOT_FOUND''"
abbreviation INVALID_PARAMS :: string where "INVALID_PARAMS \<equiv> ''INVALID_PARAMS''"

definition decryptNwcRequestContent :: "env \<Rightarrow> string \<Rightarrow> world \<Rightarrow> jsval thrown \<times> world" where
  "decryptNwcRequestContent E eventContent w =
     (case nip04_decrypt E eventContent of
        Inl err \<Rightarrow> (Inl UNAUTHORIZED, logger_error (''Error decrypting NWC request: '' @ err) w)
      | Inr plaintext \<Rightarrow>
          (case JSON_parse E plaintext of
             Inl err \<Rightarrow>
               (Inl UNAUTHORIZED, logger_error (''Error decrypting NWC request: '' @ err) w)
           | Inr c \<Rightarrow> (Inr c, w)))"

definition getErrorMessage :: "env \<Rightarrow> jsval \<Rightarrow> string \<Rightarrow> string" where
  "getErrorMessage E requestMethod errorCode =
     (if errorCode = UNAUTHORIZED then
        ''Unable to decrypt NWC request content or unauthorized sender.''
      else if errorCode = NOT_IMPLEMENTED then
        ToString E requestMethod @ '' not currently supported.''
      else if errorCode = QUOTA_EXCEEDED then
        ''Payment would exceed max quota of '' @
          ToString E (JNum (Rep_double (TOTAL_MAX_SEND_AMOUNT_IN_SATS E))) @ ''.''
      else if errorCode = PAYMENT_FAILED then ''Unable to complete payment.''
      else if errorCode = NOT_FOUND then ''Unable to find invoice.''
      else if errorCode = INVALID_PARAMS then ''Invalid parameters provided for the request.''
      else ''Something unexpected happened.'')"

text \<open>The \<open>content\<close> object of \<open>makeNwcResponseEvent\<close>. \<open>if (errorCode)\<close> is false for
  \<open>null\<close> and for the empty string.\<close>

definition response_content_of ::
  "env \<Rightarrow> jsval \<Rightarrow> jsval \<Rightarrow> string option \<Rightarrow> response_content" where
  "response_content_of E requestMethod result errorCode =
     (case errorCode of
        Some code \<Rightarrow>
          if code \<noteq> [] then
            \<lparr>result_type = requestMethod,
             resp_error = Some (code, getErrorMessage E requestMethod code),
             resp_result = None\<rparr>
          else \<lparr>result_type = requestMethod, resp_error = None, resp_result = Some result\<rparr>
      | None \<Rightarrow> \<lparr>result_type = requestMethod, resp_error = None, resp_result = Some result\<rparr>)"

text \<open>\<open>NWCWalletResponse\<close> is kind 23195; \<open>Math.round(Date.now() / 1000)\<close> rounds half
  up.\<close>

definition makeNwcResponseEvent ::
  "env \<Rightarrow> int \<Rightarrow> string \<Rightarrow> jsval \<Rightarrow> jsval \<Rightarrow> string option \<Rightarrow> nostr_event thrown" where
  "makeNwcResponseEvent E now eventId requestMethod result errorCode =
     (case nip04_encrypt E (response_content_of E requestMethod result errorCode) of
        Inl err \<Rightarrow> Inl err
      | Inr encryptedContent \<Rightarrow>
          (let eventTemplate =
                 \<lparr>ev_kind = 23195, ev_created_at = (now + 500) div 1000,
                  ev_content = encryptedContent,
                  ev_tags = [[''p'', AUTHORIZED_PUBKEY E], [''e'', eventId]],
                  ev_id = [], ev_pubkey = [], ev_sig = []\<rparr>
           in case sign_event E eventTemplate of
                Inl err \<Rightarrow> Inl err
              | Inr (i, p, s) \<Rightarrow> Inr (eventTemplate\<lparr>ev_id := i, ev_pubkey := p, ev_sig := s\<rparr>)))"

text \<open>\<open>value / 1000\<close>: the decimal string is read as a number, then divided.\<close>

definition extractAmountInSats :: "env \<Rightarrow> jsval \<Rightarrow> double thrown" where
  "extractAmountInSats E invoice =
     (case bolt11_decode E invoice of
        Inl err \<Rightarrow> Inl err
      | Inr sections \<Rightarrow>
          (case find (\<lambda>(name, v). name = ''amount'') sections of
             None \<Rightarrow> Inl (read_error JUndefined ''value'')
           | Some (name, v) \<Rightarrow> Inr (js_divide (to_double (of_nat v)) (to_double 1000))))"

text \<open>The first two lines of \<open>handlePayInvoiceRequest\<close>: the invoice parameter and the
  amount derived from it.\<close>

definition invoice_param :: "jsval \<Rightarrow> jsval" where
  "invoice_param nwcRequestContent = opt_chain (get_prop nwcRequestContent ''params'') ''invoice''"

definition amountInSats :: "env \<Rightarrow> jsval \<Rightarrow> double thrown" where
  "amountInSats E nwcRequestContent =
     (let invoice = invoice_param nwcRequestContent
      in if truthy invoice then extractAmountInSats E invoice else Inr 0)"

definition handlePayInvoiceRequest :: "env \<Rightarrow> jsval \<Rightarrow> world \<Rightarrow> jsval thrown \<times> world" where
  "handlePayInvoiceRequest E nwcRequestContent w =
     (case amountInSats E nwcRequestContent of
        Inl err \<Rightarrow> (Inl err, w)
      | Inr amount \<Rightarrow>
          if totalAmountSentInSats w + amount > TOTAL_MAX_SEND_AMOUNT_IN_SATS E
          then (Inl QUOTA_EXCEEDED, w)
          else (case payInvoice E (invoice_param nwcRequestContent) w of
                  (Inl err, w') \<Rightarrow>
                    (Inl PAYMENT_FAILED, logger_error (''Error making payment: '' @ err) w')
                | (Inr receipt, w') \<Rightarrow>
                    (Inr (JObj [(''preimage'', JStr ''gfy'')]),
                     w'\<lparr>totalAmountSentInSats := totalAmountSentInSats w' + amount\<rparr>)))"

subsection \<open>The invoice cache\<close>

text \<open>The members every plain object inherits from \<open>Object.prototype\<close>, \<open>__proto__\<close>
  apart.\<close>

definition Object_prototype_names :: "string list" where
  "Object_prototype_names =
     [''constructor'', ''hasOwnProperty'', ''isPrototypeOf'', ''propertyIsEnumerable'',
      ''toLocaleString'', ''toString'', ''valueOf'', ''__defineGetter__'',
      ''__defineSetter__'', ''__lookupGetter__'', ''__lookupSetter__'']"

definition inherited :: "string \<Rightarrow> jsval" where
  "inherited k = (if k \<in> set Object_prototype_names then JBuiltin else JUndefined)"

text \<open>\<open>cachedInvoiceResults[k]\<close>. The key \<open>__proto__\<close> is an accessor of
  \<open>Object.prototype\<close>: reading it gives the prototype of the cache, and assigning an object
  to it replaces that prototype, so the cache never has an own property of this name.
  Any other key is looked up among the own properties, then along the prototype chain.\<close>

definition cache_get :: "world \<Rightarrow> string \<Rightarrow> jsval" where
  "cache_get w k =
     (if k = ''__proto__'' then
        (case cache_proto w of None \<Rightarrow> JBuiltin | Some p \<Rightarrow> JObj p)
      else
        (case cache_own w k of
           Some v \<Rightarrow> v
         | None \<Rightarrow>
             (case cache_proto w of
                None \<Rightarrow> inherited k
              | Some p \<Rightarrow> (case map_of p k of Some v \<Rightarrow> v | None \<Rightarrow> inherited k))))"

text \<open>\<open>cachedInvoiceResults[k] = result\<close> for an object \<open>result\<close>: the key \<open>__proto__\<close>
  replaces the prototype, any other key sets an own property.\<close>

definition cache_put :: "world \<Rightarrow> string \<Rightarrow> (string \<times> jsval) list \<Rightarrow> world" where
  "cache_put w k result =
     (if k = ''__proto__'' then w\<lparr>cache_proto := Some result\<rparr>
      else w\<lparr>cache_own := (cache_own w)(k \<mapsto> JObj result)\<rparr>)"

text \<open>\<open>r.metadata.state = s\<close> where \<open>r.metadata\<close> is neither \<open>null\<close> nor \<open>undefined\<close>: on an
  object the property is set; on a primitive the assignment has no effect (the module
  is not in strict mode), and on an array it adds a property that nothing reads.\<close>

definition set_state :: "jsval \<Rightarrow> jsval \<Rightarrow> jsval" where
  "set_state r s =
     (case r of
        JObj kvs \<Rightarrow>
          (case map_of kvs ''metadata'' of
             Some (JObj m) \<Rightarrow>
               JObj (AList.update ''metadata'' (JObj (AList.update ''state'' s m)) kvs)
           | _ \<Rightarrow> r)
      | _ \<Rightarrow> r)"

text \<open>The object found under \<open>k\<close> is shared with the cache: the assignment above is seen
  where the object lives.\<close>

definition cache_write_back :: "world \<Rightarrow> string \<Rightarrow> jsval \<Rightarrow> world" where
  "cache_write_back w k r =
     (if k = ''__proto__'' then
        (case (cache_proto w, r) of
           (Some p, JObj kvs) \<Rightarrow> w\<lparr>cache_proto := Some kvs\<rparr>
         | _ \<Rightarrow> w)
      else
        (case cache_own w k of
           Some v \<Rightarrow> w\<lparr>cache_own := (cache_own w)(k \<mapsto> r)\<rparr>
         | None \<Rightarrow>
             (case cache_proto w of
                None \<Rightarrow> w
              | Some p \<Rightarrow>
                  (case map_of p k of
                     Some v \<Rightarrow> w\<lparr>cache_proto := Some (AList.update k r p)\<rparr>
                   | None \<Rightarrow> w))))"

definition handleMakeInvoiceRequest :: "env \<Rightarrow> jsval \<Rightarrow> world \<Rightarrow> jsval thrown \<times> world" where
  "handleMakeInvoiceRequest E nwcRequestContent w =
     (let params = get_prop nwcRequestContent ''params'' in
      if nullish params then (Inl (destructure_error params ''amount''), w)
      else
        (let amount = get_prop params ''amount'';
             description = get_prop params ''description''
         in case makeInvoice E amount description w of
              (Inl err, w') \<Rightarrow> (Inl INTERNAL, logger_error (''Error making invoice: '' @ err) w')
            | (Inr (invoiceId, invoice, state, createdAt, expiresAt), w') \<Rightarrow>
                (let result =
                       [(''type'', JStr ''incoming''), (''invoice'', invoice),
                        (''description'', description), (''amount'', amount),
                        (''created_at'', createdAt), (''expires_at'', expiresAt),
                        (''metadata'', JObj [(''state'', state), (''invoice_id'', invoiceId)])]
                 in (Inr (JObj result), cache_put w' (ToString E invoice) result))))"

definition handleLookupInvoiceRequest :: "env \<Rightarrow> jsval \<Rightarrow> world \<Rightarrow> jsval thrown \<times> world" where
  "handleLookupInvoiceRequest E nwcRequestContent w =
     (let params = get_prop nwcRequestContent ''params'' in
      if nullish params then (Inl (destructure_error params ''invoice''), w)
      else
        (let key = ToString E (get_prop params ''invoice'');
             cachedInvoiceResult = cache_get w key
         in if \<not> truthy cachedInvoiceResult then (Inl NOT_FOUND, w)
            else
              (case read_member (get_prop cachedInvoiceResult ''metadata'') ''invoice_id'' of
                 Inl err \<Rightarrow> (Inl INTERNAL, logger_error (''Error looking up invoice: '' @ err) w)
               | Inr invoiceId \<Rightarrow>
                   (case lookupInvoice E invoiceId w of
                      (Inl err, w') \<Rightarrow>
                        (Inl INTERNAL, logger_error (''Error looking up invoice: '' @ err) w')
                    | (Inr state, w') \<Rightarrow>
                        (let r = set_state cachedInvoiceResult state
                         in (Inr r, cache_write_back w' key r))))))"

text \<open>\<open>STRIKE_SOURCE_CURRENCY\<close> is not among the names the module imports: evaluating it
  (when \<open>params?.currency\<close> is falsy) throws a ReferenceError, inside the \<open>try\<close>.\<close>

definition handleGetExchangeRatesRequest :: "env \<Rightarrow> jsval \<Rightarrow> world \<Rightarrow> jsval thrown \<times> world" where
  "handleGetExchangeRatesRequest E nwcRequestContent w =
     (let currency = opt_chain (get_prop nwcRequestContent ''params'') ''currency'' in
      if truthy currency then
        (case getExchangeRates E currency w of
           (Inl err, w') \<Rightarrow>
             (Inl INTERNAL, logger_error (''Error getting exchange rates: '' @ err) w')
         | (Inr rates, w') \<Rightarrow> (Inr rates, w'))
      else
        (Inl INTERNAL,
         logger_error ''Error getting exchange rates: STRIKE_SOURCE_CURRENCY is not defined'' w))"

definition handleGetAccountDetailsRequest :: "env \<Rightarrow> world \<Rightarrow> jsval thrown \<times> world" where
  "handleGetAccountDetailsRequest E w =
     (case getAccountDetails E w of
        (Inl err, w') \<Rightarrow>
          (Inl INTERNAL, logger_error (''Error getting account details: '' @ err) w')
      | (Inr accountDetails, w') \<Rightarrow> (Inr accountDetails, w'))"

definition handleGetBalanceRequest :: "env \<Rightarrow> world \<Rightarrow> jsval thrown \<times> world" where
  "handleGetBalanceRequest E w =
     (case getBalance E w of
        (Inl err, w') \<Rightarrow> (Inl INTERNAL, logger_error (''Error getting balance: '' @ err) w')
      | (Inr balance, w') \<Rightarrow> (Inr balance, w'))"

text \<open>\<open>params?.limit || 10\<close> and \<open>params?.offset || 0\<close>\<close>

definition limit_param :: "jsval \<Rightarrow> jsval" where
  "limit_param nwcRequestContent =
     (let l = opt_chain (get_prop nwcRequestContent ''params'') ''limit''
      in if truthy l then l else JNum 10)"

definition offset_param :: "jsval \<Rightarrow> jsval" where
  "offset_param nwcRequestContent =
     (let off = opt_chain (get_prop nwcRequestContent ''params'') ''offset''
      in if truthy off then off else JNum 0)"

definition handleGetTransactionsRequest :: "env \<Rightarrow> jsval \<Rightarrow> world \<Rightarrow> jsval thrown \<times> world" where
  "handleGetTransactionsRequest E nwcRequestContent w =
     (let limit = limit_param nwcRequestContent;
          offset = offset_param nwcRequestContent
      in if isNaN E limit \<or> isNaN E offset \<or> js_lt E limit 1 \<or> js_gt E limit 100 \<or>
            js_lt E offset 0
         then (Inl INVALID_PARAMS, w)
         else (case getTransactions E limit offset w of
                 (Inl err, w') \<Rightarrow>
                   if err = INVALID_PARAMS then (Inl err, w')
                   else (Inl INTERNAL, logger_error (''Error getting transactions: '' @ err) w')
               | (Inr transactions, w') \<Rightarrow> (Inr transactions, w')))"

text \<open>The \<open>switch\<close> of \<open>handleNwcRequest\<close>. Reading \<open>.method\<close> throws on \<open>null\<close>; the
  default case sets the error code without throwing, which the caller cannot tell from a
  throw. Each case records the handler it calls.\<close>

definition call :: "string \<Rightarrow> world \<Rightarrow> world" where
  "call handler w = w\<lparr>invoked := invoked w @ [handler]\<rparr>"

definition switch_method :: "env \<Rightarrow> jsval \<Rightarrow> world \<Rightarrow> jsval thrown \<times> world" where
  "switch_method E nwcRequestContent w =
     (case read_member nwcRequestContent ''method'' of
        Inl err \<Rightarrow> (Inl err, w)
      | Inr m \<Rightarrow>
          if m = JStr ''pay_invoice'' then
            handlePayInvoiceRequest E nwcRequestContent (call ''handlePayInvoiceRequest'' w)
          else if m = JStr ''make_invoice'' then
            handleMakeInvoiceRequest E nwcRequestContent (call ''handleMakeInvoiceRequest'' w)
          else if m = JStr ''lookup_invoice'' then
            handleLookupInvoiceRequest E nwcRequestContent (call ''handleLookupInvoiceRequest'' w)
          else if m = JStr ''get_exchange_rates'' then
            handleGetExchangeRatesRequest E nwcRequestContent
              (call ''handleGetExchangeRatesRequest'' w)
          else if m = JStr ''get_account_details'' then
            handleGetAccountDetailsRequest E (call ''handleGetAccountDetailsRequest'' w)
          else if m = JStr ''get_balance'' then
            handleGetBalanceRequest E (call ''handleGetBalanceRequest'' w)
          else if m = JStr ''get_transactions'' then
            handleGetTransactionsRequest E nwcRequestContent
              (call ''handleGetTransactionsRequest'' w)
          else (Inl NOT_IMPLEMENTED, w))"

text \<open>The first \<open>try\<close> of \<open>handleNwcRequest\<close>: its result is the values of \<open>errorCode\<close>,
  \<open>result\<close> and \<open>nwcRequestContent\<close> after it.\<close>

definition handleNwcRequest_try ::
  "env \<Rightarrow> nostr_event \<Rightarrow> world \<Rightarrow> string option \<times> jsval \<times> jsval \<times> world" where
  "handleNwcRequest_try E event w =
     (case decryptNwcRequestContent E (ev_content event) w of
        (Inl err, w1) \<Rightarrow> (Some err, JNull, JNull, w1)
      | (Inr nwcRequestContent, w1) \<Rightarrow>
          if ev_pubkey event \<noteq> NWC_CONNECTION_PUBKEY E then
            (Some UNAUTHORIZED, JNull, nwcRequestContent,
             logger_error (''Unauthorized request from pubkey: '' @ ev_pubkey event) w1)
          else (case switch_method E nwcRequestContent w1 of
                  (Inl err, w2) \<Rightarrow> (Some err, JNull, nwcRequestContent, w2)
                | (Inr r, w2) \<Rightarrow> (None, r, nwcRequestContent, w2)))"

text \<open>\<open>nwcRequestContent?.method ?? "unknown"\<close>\<close>

definition requestMethod_of :: "jsval \<Rightarrow> jsval" where
  "requestMethod_of nwcRequestContent =
     (let m = opt_chain nwcRequestContent ''method''
      in if nullish m then JStr ''unknown'' else m)"

text \<open>The second \<open>try\<close>: the response is built and handed to \<open>relay.publish\<close>, or the
  failure to build it is logged.\<close>

definition publish_response ::
  "env \<Rightarrow> nostr_event \<Rightarrow> string option \<times> jsval \<times> jsval \<times> world \<Rightarrow> world" where
  "publish_response E event st =
     (case st of (errorCode, result, nwcRequestContent, w) \<Rightarrow>
        (case makeNwcResponseEvent E (Date_now E (length (published w))) (ev_id event)
                (requestMethod_of nwcRequestContent) result errorCode of
           Inl err \<Rightarrow> logger_error ''Failed to publish NWC response'' w
         | Inr nwcResponse \<Rightarrow> w\<lparr>published := published w @ [nwcResponse]\<rparr>))"

definition handleNwcRequest :: "env \<Rightarrow> nostr_event \<Rightarrow> world \<Rightarrow> world" where
  "handleNwcRequest E event w = publish_response E event (handleNwcRequest_try E event w)"

text \<open>The events of the subscription handled one after the other, each to its end before
  the next starts.\<close>

fun handle_all :: "env \<Rightarrow> nostr_event list \<Rightarrow> world \<Rightarrow> world" where
  "handle_all E [] w = w"
| "handle_all E (event # events) w = handle_all E events (handleNwcRequest E event w)"

text \<open>Pay requests handled one after the other, with the outcome of each.\<close>

fun pay_all :: "env \<Rightarrow> jsval list \<Rightarrow> world \<Rightarrow> jsval thrown list \<times> world" where
  "pay_all E [] w = ([], w)"
| "pay_all E (c # cs) w =
     (case handlePayInvoiceRequest E c w of
        (r, w') \<Rightarrow> (case pay_all E cs w' of (rs, w'') \<Rightarrow> (r # rs, w'')))"

text \<open>What \<open>handleNwcRequest\<close> hands to the response builder for an event: the content
  object built from \<open>errorCode\<close>, \<open>result\<close> and the request method.\<close>

definition response_content_for :: "env \<Rightarrow> nostr_event \<Rightarrow> world \<Rightarrow> response_content" where
  "response_content_for E event w =
     (case handleNwcRequest_try E event w of
        (errorCode, result, nwcRequestContent, w1) \<Rightarrow>
          response_content_of E (requestMethod_of nwcRequestContent) result errorCode)"

definition error_taxonomy :: "string list" where
  "error_taxonomy =
     [UNAUTHORIZED, NOT_IMPLEMENTED, QUOTA_EXCEEDED, PAYMENT_FAILED, NOT_FOUND,
      INVALID_PARAMS, INTERNAL]"

definition supported_methods :: "string list" where
  "supported_methods =
     [''pay_invoice'', ''make_invoice'', ''lookup_invoice'', ''get_exchange_rates'',
      ''get_account_details'', ''get_balance'', ''get_transactions'']"

section \<open>An example deployment\<close>

text \<open>
  A concrete environment on which the definitions can be run: a ceiling of 10000 sats,
  a cipher that leaves the text as it is (and rejects \<open>garbage\<close>), a parser that knows
  the messages of \<open>example_messages\<close>, a decoder that knows nine invoices (3, 100, 200,
  934, 1500 and 2063 msat, 2000 sats, 6001 sats and one without amount) and a provider that pays every invoice it is given,
  issues the invoice \<open>lnbc1invoice\<close> and reports it as paid.
\<close>

definition request :: "string \<Rightarrow> (string \<times> jsval) list \<Rightarrow> jsval" where
  "request m params = JObj [(''method'', JStr m), (''params'', JObj params)]"

definition example_messages :: "(string \<times> jsval) list" where
  "example_messages =
     [(''pay lnbc15n'', request ''pay_invoice'' [(''invoice'', JStr ''lnbc15n'')]),
      (''pay lnbc20u'', request ''pay_invoice'' [(''invoice'', JStr ''lnbc20u'')]),
      (''pay nothing'', JObj [(''method'', JStr ''pay_invoice'')]),
      (''make coffee'',
         request ''make_invoice'' [(''amount'', JNum 1000), (''description'', JStr ''coffee'')]),
      (''make nothing'', JObj [(''method'', JStr ''make_invoice'')]),
      (''lookup lnbc1invoice'', request ''lookup_invoice'' [(''invoice'', JStr ''lnbc1invoice'')]),
      (''lookup constructor'', request ''lookup_invoice'' [(''invoice'', JStr ''constructor'')]),
      (''balance'', JObj [(''method'', JStr ''get_balance'')]),
      (''transactions 1.5'', request ''get_transactions'' [(''limit'', JNum (3 / 2))]),
      (''transactions 0'', request ''get_transactions'' [(''limit'', JNum 0)]),
      (''transactions 101'', request ''get_transactions'' [(''limit'', JNum 101)]),
      (''close_channel'', JObj [(''method'', JStr ''close_channel'')]),
      (''empty method'', JObj [(''method'', JStr [])]),
      (''no method'', JObj []),
      (''null'', JNull)]"

definition example_decode :: "jsval \<Rightarrow> (string \<times> nat) list thrown" where
  "example_decode invoice =
     (if invoice = JStr ''lnbc1n'' then Inr [(''coin_network'', 0), (''amount'', 100)]
      else if invoice = JStr ''lnbc2n'' then Inr [(''coin_network'', 0), (''amount'', 200)]
      else if invoice = JStr ''lnbc30p'' then Inr [(''coin_network'', 0), (''amount'', 3)]
      else if invoice = JStr ''lnbc9340p'' then Inr [(''coin_network'', 0), (''amount'', 934)]
      else if invoice = JStr ''lnbc20630p'' then Inr [(''coin_network'', 0), (''amount'', 2063)]
      else if invoice = JStr ''lnbc15n'' then Inr [(''coin_network'', 0), (''amount'', 1500)]
      else if invoice = JStr ''lnbc20u'' then Inr [(''coin_network'', 0), (''amount'', 2000000)]
      else if invoice = JStr ''lnbc60010n'' then Inr [(''coin_network'', 0), (''amount'', 6001000)]
      else if invoice = JStr ''lnbc1any'' then Inr [(''coin_network'', 0)]
      else Inl ''Not a proper lightning payment request'')"

definition example_provider :: "http_request list \<Rightarrow> http_request \<Rightarrow> jsval thrown" where
  "example_provider history req =
     (case req of
        PostPaymentQuote invoice currency \<Rightarrow>
          if invoice = JUndefined then Inl ''Request failed with status code 400''
          else Inr (JObj [(''paymentQuoteId'', JStr ''quote-1'')])
      | PatchExecuteQuote quoteId \<Rightarrow> Inr (JObj [(''state'', JStr ''COMPLETED'')])
      | PostInvoice description btcAmount \<Rightarrow>
          Inr (JObj [(''invoiceId'', JStr ''invoice-1''), (''state'', JStr ''UNPAID''),
                     (''created'', JStr ''2024-01-01T00:00:00Z'')])
      | PostInvoiceQuote invoiceId \<Rightarrow>
          Inr (JObj [(''lnInvoice'', JStr ''lnbc1invoice''),
                     (''expiration'', JStr ''2024-01-01T01:00:00Z'')])
      | GetInvoice invoiceId \<Rightarrow> Inr (JObj [(''state'', JStr ''PAID'')])
      | GetRatesTicker currency \<Rightarrow> Inr (JArr [])
      | GetAccount \<Rightarrow> Inr (JObj [(''handle'', JStr ''me'')])
      | GetBalance \<Rightarrow> Inr (JArr [])
      | GetTransactions limit offset \<Rightarrow> Inr (JArr []))"

definition example_env :: env where
  "example_env =
     \<lparr>TOTAL_MAX_SEND_AMOUNT_IN_SATS = to_double 10000,
      NWC_CONNECTION_PUBKEY = ''client'',
      AUTHORIZED_PUBKEY = ''client'',
      STRIKE_SOURCE_CURRENCY = JStr ''USD'',
      nip04_decrypt = (\<lambda>s. if s = ''garbage'' then Inl ''invalid padding'' else Inr s),
      JSON_parse =
        (\<lambda>s. case map_of example_messages s of
               Some v \<Rightarrow> Inr v
             | None \<Rightarrow> Inl ''Unexpected token''),
      nip04_encrypt = (\<lambda>c. Inr (case resp_error c of Some (code, msg) \<Rightarrow> code | None \<Rightarrow> ''ok'')),
      sign_event = (\<lambda>t. Inr (''response-id'', ''service'', ''signature'')),
      Date_now = (\<lambda>n. 1700000000000),
      bolt11_decode = example_decode,
      axios = example_provider,
      Big_btc = (\<lambda>v. Inr ''0.00001000''),
      Date_parse = (\<lambda>v. Some 1704067200000),
      ToNumber_ext = (\<lambda>v. None),
      ToString_ext = (\<lambda>v. ''10000'')\<rparr>"

text \<open>An event from \<open>sender\<close> whose content decrypts to \<open>text\<close>.\<close>

definition example_event :: "string \<Rightarrow> string \<Rightarrow> nostr_event" where
  "example_event sender text =
     \<lparr>ev_kind = 23194, ev_created_at = 1700000000, ev_content = text,
      ev_tags = [[''p'', ''service'']], ev_id = ''request-id'', ev_pubkey = sender,
      ev_sig = ''signature''\<rparr>"

section \<open>Properties\<close>

subsection \<open>Rounding\<close>

lemma bitlen_rat_bounds:
  assumes "0 < p"
  shows "(2::rat) powi (bitlen p - 1) \<le> of_int p" "of_int p < (2::rat) powi (bitlen p)"
proof -
  have b: "2 ^ nat (bitlen p - 1) \<le> p" "p < 2 ^ nat (bitlen p)"
    using bitlen_bounds [OF assms] by auto
  have pos: "1 \<le> bitlen p"
    using assms bitlen_eq_zero_iff [of p] bitlen_nonneg [of p] by linarith
  have "(2::rat) powi (bitlen p - 1) = of_int (2 ^ nat (bitlen p - 1))"
    using pos by (simp add: power_int_nonneg_exp)
  also have "\<dots> \<le> of_int p"
    using b(1) by (simp only: of_int_le_iff)
  finally show "(2::rat) powi (bitlen p - 1) \<le> of_int p" .
  have "(of_int p :: rat) < of_int (2 ^ nat (bitlen p))"
    using b(2) by (simp only: of_int_less_iff)
  also have "\<dots> = 2 powi (bitlen p)"
    using pos by (simp add: power_int_nonneg_exp)
  finally show "of_int p < (2::rat) powi (bitlen p)" .
qed

lemma expo_bounds:
  assumes x: "0 < x"
  shows "2 powi (expo x) \<le> x" and "x < 2 powi (expo x + 1)"
proof -
  obtain p q where pq: "quotient_of x = (p, q)"
    by (cases "quotient_of x") auto
  have q: "0 < q"
    using pq by (rule quotient_of_denom_pos)
  have xpq: "x = of_int p / of_int q"
    using pq by (rule quotient_of_div)
  have p: "0 < p"
    using x q xpq by (simp add: zero_less_divide_iff)
  define d where "d = bitlen p - bitlen q"
  have two: "(2::rat) \<noteq> 0" by simp
  have up: "x < 2 powi (d + 1)"
  proof -
    have "x * of_int q = of_int p"
      using q xpq by simp
    also have "\<dots> < 2 powi (bitlen p)"
      using bitlen_rat_bounds(2) [OF p] .
    also have "\<dots> = 2 powi (d + 1) * 2 powi (bitlen q - 1)"
      by (simp add: d_def power_int_add [symmetric])
    also have "\<dots> \<le> 2 powi (d + 1) * of_int q"
      using bitlen_rat_bounds(1) [OF q] by (simp add: mult_left_mono)
    finally show ?thesis
      using q by simp
  qed
  have low: "2 powi (d - 1) < x"
  proof -
    have "2 powi (d - 1) * of_int q < 2 powi (d - 1) * (2::rat) powi (bitlen q)"
      using bitlen_rat_bounds(2) [OF q] by (simp add: mult_strict_left_mono)
    also have "\<dots> = 2 powi (bitlen p - 1)"
      by (simp add: d_def power_int_add [symmetric])
    also have "\<dots> \<le> of_int p"
      using bitlen_rat_bounds(1) [OF p] .
    also have "\<dots> = x * of_int q"
      using q xpq by simp
    finally show ?thesis
      using q by simp
  qed
  have e: "expo x = (if 2 powi d \<le> x then d else d - 1)"
    by (simp add: expo_def pq d_def Let_def)
  show "2 powi (expo x) \<le> x"
    using low by (simp add: e)
  show "x < 2 powi (expo x + 1)"
    using up by (simp add: e not_le)
qed

lemma pow2_less_cancel:
  assumes "(2::rat) powi a < 2 powi b"
  shows "a < b"
proof (rule ccontr)
  assume "\<not> a < b"
  then have "b \<le> a" by simp
  then have "(2::rat) powi b \<le> 2 powi a"
    by (rule power_int_increasing) simp
  then show False
    using assms by simp
qed

lemma pow2_mono: "a \<le> b \<Longrightarrow> (2::rat) powi a \<le> 2 powi b"
  by (rule power_int_increasing) simp_all

lemma expo_unique:
  assumes "0 < x" "2 powi e \<le> x" "x < 2 powi (e + 1)"
  shows "expo x = e"
proof -
  have "(2::rat) powi e < 2 powi (expo x + 1)"
    using assms(2) expo_bounds(2) [OF assms(1)] by simp
  then have a: "e < expo x + 1"
    by (rule pow2_less_cancel)
  have "(2::rat) powi (expo x) < 2 powi (e + 1)"
    using assms(3) expo_bounds(1) [OF assms(1)] by simp
  then have b: "expo x < e + 1"
    by (rule pow2_less_cancel)
  from a b show ?thesis by simp
qed

lemma expo_mono:
  assumes "0 < x" "x \<le> y"
  shows "expo x \<le> expo y"
proof -
  have "(2::rat) powi (expo x) < 2 powi (expo y + 1)"
    using expo_bounds(1) [OF assms(1)] expo_bounds(2) [of y] assms by simp
  then have "expo x < expo y + 1"
    by (rule pow2_less_cancel)
  then show ?thesis by simp
qed


lemma round_half_even_cases:
  "round_half_even m = \<lfloor>m\<rfloor> \<or> round_half_even m = \<lfloor>m\<rfloor> + 1"
  by (simp add: round_half_even_def Let_def)

lemma round_half_even_of_int: "round_half_even (of_int n) = n"
  by (simp add: round_half_even_def)

lemma round_half_even_ge:
  assumes "of_int n \<le> m"
  shows "n \<le> round_half_even m"
proof -
  have "n \<le> \<lfloor>m\<rfloor>"
    using assms by (simp add: le_floor_iff)
  then show ?thesis
    using round_half_even_cases [of m] by auto
qed

lemma round_half_even_le:
  assumes "m \<le> of_int n"
  shows "round_half_even m \<le> n"
proof (cases "m = of_int n")
  case True
  then show ?thesis by (simp add: round_half_even_of_int)
next
  case False
  then have "m < of_int n"
    using assms by simp
  then have "\<lfloor>m\<rfloor> < n"
    by (simp add: floor_less_iff)
  then show ?thesis
    using round_half_even_cases [of m] by auto
qed

lemma quantum_pos: "0 < quantum x"
  by (simp add: quantum_def)

lemma significand_less:
  assumes "0 < x"
  shows "x / quantum x < 2 ^ 53"
proof -
  have "x < 2 powi (expo x + 1)"
    using assms by (rule expo_bounds)
  also have "\<dots> \<le> 2 powi (max (expo x) (- 1022) + 1)"
    by (rule pow2_mono) simp
  also have "\<dots> = 2 ^ 53 * quantum x"
  proof -
    have "(2::rat) powi (max (expo x) (- 1022) + 1) =
            2 powi (53 + (max (expo x) (- 1022) - 52))"
      by (simp add: algebra_simps)
    also have "\<dots> = 2 powi 53 * 2 powi (max (expo x) (- 1022) - 52)"
      by (rule power_int_add) simp
    finally show ?thesis
      by (simp add: quantum_def)
  qed
  finally show ?thesis
    using quantum_pos [of x] by (simp add: pos_divide_less_eq)
qed

lemma quantum_normal:
  assumes "- 1022 \<le> expo x"
  shows "2 ^ 52 * quantum x = 2 powi (expo x)"
proof -
  have "(2::rat) powi (expo x) = 2 powi (52 + (expo x - 52))"
    by simp
  also have "\<dots> = 2 powi 52 * 2 powi (expo x - 52)"
    by (rule power_int_add) simp
  finally show ?thesis
    using assms by (simp add: quantum_def max_def)
qed

lemma significand_ge:
  assumes "0 < x" "- 1022 \<le> expo x"
  shows "2 ^ 52 \<le> x / quantum x"
proof -
  have "2 ^ 52 * quantum x \<le> x"
    using expo_bounds(1) [OF assms(1)] quantum_normal [OF assms(2)] by simp
  then show ?thesis
    using quantum_pos [of x] by (simp add: pos_le_divide_eq)
qed

lemma round_pos_multiple:
  assumes k: "0 < k" "k < 2 ^ 53" and j: "- 1074 \<le> j"
  shows "round_pos (of_int k * 2 powi j) = of_int k * 2 powi j"
proof -
  define y :: rat where "y = of_int k * 2 powi j"
  have y: "0 < y"
    using k by (simp add: y_def)
  have "y < 2 ^ 53 * 2 powi j"
  proof -
    have "(of_int k :: rat) < of_int (2 ^ 53)"
      using k(2) by (simp only: of_int_less_iff)
    then show ?thesis
      by (simp add: y_def)
  qed
  also have "\<dots> = 2 powi (53 + j)"
  proof -
    have "(2::rat) powi (53 + j) = 2 powi 53 * 2 powi j"
      by (rule power_int_add) simp
    then show ?thesis by simp
  qed
  finally have "(2::rat) powi (expo y) < 2 powi (53 + j)"
    using expo_bounds(1) [OF y] by simp
  then have e: "expo y < 53 + j"
    by (rule pow2_less_cancel)
  define n where "n = j - (max (expo y) (- 1022) - 52)"
  define Q where "Q = quantum y"
  have Q: "0 < Q"
    by (simp add: Q_def quantum_pos)
  have n: "0 \<le> n"
    using e j by (simp add: n_def)
  have "(2::rat) powi j = 2 powi (n + (max (expo y) (- 1022) - 52))"
    by (simp add: n_def)
  also have "\<dots> = 2 powi n * Q"
    unfolding Q_def quantum_def by (rule power_int_add) simp
  finally have pj: "(2::rat) powi j = 2 ^ nat n * Q"
    using n by (simp add: power_int_nonneg_exp)
  have yQ: "y = of_int (k * 2 ^ nat n) * Q"
    by (simp add: y_def pj)
  then have "y / Q = of_int (k * 2 ^ nat n)"
    using Q by simp
  then have "round_half_even (y / Q) = k * 2 ^ nat n"
    by (simp only: round_half_even_of_int)
  then have "round_pos y = of_int (k * 2 ^ nat n) * Q"
    by (simp add: round_pos_def Q_def)
  then have "round_pos y = y"
    using yQ by simp
  then show ?thesis
    by (simp add: y_def)
qed

lemma round_pos_multiple_le:
  assumes k: "0 < k" "k \<le> 2 ^ 53" and j: "- 1074 \<le> j"
  shows "round_pos (of_int k * 2 powi j) = of_int k * 2 powi j"
proof (cases "k = 2 ^ 53")
  case False
  then show ?thesis
    using k j by (simp add: round_pos_multiple)
next
  case True
  have "(2::rat) powi (j + 1) = 2 powi j * 2"
    by (rule power_int_add_1) simp
  then have "of_int k * (2::rat) powi j = of_int (2 ^ 52) * 2 powi (j + 1)"
    by (simp add: True)
  moreover have "round_pos (of_int (2 ^ 52) * 2 powi (j + 1)) = of_int (2 ^ 52) * 2 powi (j + 1)"
    using j by (intro round_pos_multiple) simp_all
  ultimately show ?thesis
    by simp
qed

lemma round_pos_form:
  assumes "0 < x"
  shows "\<exists>k j. round_pos x = of_int k * 2 powi j \<and> 0 \<le> k \<and> k \<le> 2 ^ 53 \<and> - 1074 \<le> j"
proof -
  define k where "k = round_half_even (x / quantum x)"
  have "0 \<le> x / quantum x"
    using assms quantum_pos [of x] by simp
  then have "(of_int 0 :: rat) \<le> x / quantum x"
    by simp
  then have k0: "0 \<le> k"
    unfolding k_def by (rule round_half_even_ge)
  have "x / quantum x \<le> of_int (2 ^ 53)"
    using significand_less [OF assms] by simp
  then have k1: "k \<le> 2 ^ 53"
    unfolding k_def by (rule round_half_even_le)
  have "round_pos x = of_int k * 2 powi (max (expo x) (- 1022) - 52)"
    by (simp add: round_pos_def k_def quantum_def)
  then show ?thesis
    using k0 k1 by (intro exI [of _ k] exI [of _ "max (expo x) (- 1022) - 52"]) simp
qed

lemma round_pos_nonneg: "0 < x \<Longrightarrow> 0 \<le> round_pos x"
  using round_pos_form [of x] by auto

lemma round_double_round_pos:
  assumes "0 < x"
  shows "round_double (round_pos x) = round_pos x"
proof -
  obtain k j where r: "round_pos x = of_int k * 2 powi j"
      and k: "0 \<le> k" "k \<le> 2 ^ 53" and j: "- 1074 \<le> j"
    using round_pos_form [OF assms] by blast
  show ?thesis
  proof (cases "k = 0")
    case True
    then show ?thesis
      by (simp add: r round_double_def)
  next
    case False
    then have k': "0 < k"
      using k by simp
    then have "0 < round_pos x"
      by (simp add: r)
    then have "round_double (round_pos x) = round_pos (round_pos x)"
      by (simp add: round_double_def)
    also have "\<dots> = round_pos x"
      unfolding r using k' k(2) j by (rule round_pos_multiple_le)
    finally show ?thesis .
  qed
qed

lemma round_double_zero: "round_double 0 = 0"
  by (simp add: round_double_def)

lemma round_double_minus: "round_double (- x) = - round_double x"
  by (simp add: round_double_def)

lemma round_double_idem: "round_double (round_double x) = round_double x"
proof -
  consider "x = 0" | "0 < x" | "x < 0" by linarith
  then show ?thesis
  proof cases
    case 1
    then show ?thesis by (simp add: round_double_def)
  next
    case 2
    then show ?thesis
      by (simp add: round_double_def [of x] round_double_round_pos)
  next
    case 3
    then have "round_double x = - round_pos (- x)"
      by (simp add: round_double_def)
    then show ?thesis
      using 3 by (simp add: round_double_minus round_double_round_pos)
  qed
qed

lemma round_double_nonneg: "0 \<le> x \<Longrightarrow> 0 \<le> round_double x"
  by (simp add: round_double_def round_pos_nonneg)

lemma round_double_of_int:
  assumes "\<bar>n\<bar> \<le> 2 ^ 53"
  shows "round_double (of_int n) = of_int n"
proof -
  have pos: "round_pos (of_int m) = of_int m" if "0 < m" "m \<le> 2 ^ 53" for m
    using round_pos_multiple_le [of m 0] that by simp
  consider "n = 0" | "0 < n" | "n < 0" by linarith
  then show ?thesis
  proof cases
    case 1
    then show ?thesis by (simp add: round_double_def)
  next
    case 2
    then show ?thesis
      using assms pos [of n] by (simp add: round_double_def)
  next
    case 3
    then show ?thesis
      using assms pos [of "- n"] by (simp add: round_double_def)
  qed
qed


lemma divide_eq_of_mult:
  fixes k q x :: rat
  assumes "k * q = x" "0 < q"
  shows "x / q = k"
proof -
  have "x / q = k * q / q"
    using assms(1) by simp
  then show ?thesis
    using assms(2) by simp
qed

lemma fixed_significand:
  assumes "round_pos x = x"
  shows "x / quantum x = of_int (round_half_even (x / quantum x))"
proof -
  have "of_int (round_half_even (x / quantum x)) * quantum x = x"
    using assms by (simp add: round_pos_def)
  then show ?thesis
    using quantum_pos by (rule divide_eq_of_mult)
qed

lemma round_pos_ge_normal:
  assumes "0 < y" "- 1022 \<le> expo y"
  shows "2 powi (expo y) \<le> round_pos y"
proof -
  have "(of_int (2 ^ 52) :: rat) \<le> y / quantum y"
    using significand_ge [OF assms] by simp
  then have "2 ^ 52 \<le> round_half_even (y / quantum y)"
    by (rule round_half_even_ge)
  then have "(of_int (2 ^ 52) :: rat) \<le> of_int (round_half_even (y / quantum y))"
    by (simp only: of_int_le_iff)
  then have "2 ^ 52 * quantum y \<le> round_pos y"
    using quantum_pos [of y] by (simp add: round_pos_def)
  then show ?thesis
    using quantum_normal [OF assms(2)] by simp
qed

lemma round_pos_le_next:
  assumes "0 < z"
  shows "round_pos z \<le> 2 powi (max (expo z) (- 1022) + 1)"
proof -
  have "z / quantum z \<le> of_int (2 ^ 53)"
    using significand_less [OF assms] by simp
  then have "round_half_even (z / quantum z) \<le> 2 ^ 53"
    by (rule round_half_even_le)
  then have "(of_int (round_half_even (z / quantum z)) :: rat) \<le> of_int (2 ^ 53)"
    by (simp only: of_int_le_iff)
  then have "round_pos z \<le> 2 ^ 53 * quantum z"
    using quantum_pos [of z] by (simp add: round_pos_def)
  also have "\<dots> = 2 powi (max (expo z) (- 1022) + 1)"
  proof -
    have "(2::rat) powi (max (expo z) (- 1022) + 1) =
            2 powi (53 + (max (expo z) (- 1022) - 52))"
      by (simp add: algebra_simps)
    also have "\<dots> = 2 powi 53 * 2 powi (max (expo z) (- 1022) - 52)"
      by (rule power_int_add) simp
    finally show ?thesis
      by (simp add: quantum_def)
  qed
  finally show ?thesis .
qed

lemma round_pos_ge_fixed:
  assumes x: "0 < x" and fx: "round_pos x = x" and xy: "x \<le> y"
  shows "x \<le> round_pos y"
proof -
  have y: "0 < y"
    using x xy by simp
  have e: "expo x \<le> expo y"
    using x xy by (rule expo_mono)
  show ?thesis
  proof (cases "max (expo x) (- 1022) = max (expo y) (- 1022)")
    case True
    then have q: "quantum x = quantum y"
      by (simp add: quantum_def)
    have "of_int (round_half_even (x / quantum x)) \<le> y / quantum y"
      using fixed_significand [OF fx] xy quantum_pos [of y]
      by (simp add: q divide_right_mono)
    then have "round_half_even (x / quantum x) \<le> round_half_even (y / quantum y)"
      by (rule round_half_even_ge)
    then have "(of_int (round_half_even (x / quantum x)) :: rat) \<le>
                 of_int (round_half_even (y / quantum y))"
      by (simp only: of_int_le_iff)
    then have "round_pos x \<le> round_pos y"
      using quantum_pos [of y] by (simp add: round_pos_def q)
    then show ?thesis
      by (simp add: fx)
  next
    case False
    then have n: "- 1022 \<le> expo y" and lt: "expo x + 1 \<le> expo y"
      using e by (auto simp: max_def split: if_splits)
    have "x < 2 powi (expo x + 1)"
      using x by (rule expo_bounds)
    also have "\<dots> \<le> 2 powi (expo y)"
      using lt by (rule pow2_mono)
    also have "\<dots> \<le> round_pos y"
      using y n by (rule round_pos_ge_normal)
    finally show ?thesis by simp
  qed
qed

lemma round_pos_le_fixed:
  assumes z: "0 < z" and zu: "z \<le> u" and fu: "round_pos u = u"
  shows "round_pos z \<le> u"
proof -
  have u: "0 < u"
    using z zu by simp
  have e: "expo z \<le> expo u"
    using z zu by (rule expo_mono)
  show ?thesis
  proof (cases "max (expo z) (- 1022) = max (expo u) (- 1022)")
    case True
    then have q: "quantum z = quantum u"
      by (simp add: quantum_def)
    have "z / quantum z \<le> of_int (round_half_even (u / quantum u))"
      using fixed_significand [OF fu] zu quantum_pos [of u]
      by (simp add: q divide_right_mono)
    then have "round_half_even (z / quantum z) \<le> round_half_even (u / quantum u)"
      by (rule round_half_even_le)
    then have "(of_int (round_half_even (z / quantum z)) :: rat) \<le>
                 of_int (round_half_even (u / quantum u))"
      by (simp only: of_int_le_iff)
    then have "round_pos z \<le> round_pos u"
      using quantum_pos [of u] by (simp add: round_pos_def q)
    then show ?thesis
      by (simp add: fu)
  next
    case False
    then have n: "- 1022 \<le> expo u" and lt: "max (expo z) (- 1022) + 1 \<le> expo u"
      using e by (auto simp: max_def split: if_splits)
    have "round_pos z \<le> 2 powi (max (expo z) (- 1022) + 1)"
      using z by (rule round_pos_le_next)
    also have "\<dots> \<le> 2 powi (expo u)"
      using lt by (rule pow2_mono)
    also have "\<dots> \<le> u"
      using u by (rule expo_bounds)
    finally show ?thesis .
  qed
qed

lemma round_double_fixed_pos:
  "0 < x \<Longrightarrow> round_double x = x \<Longrightarrow> round_pos x = x"
  by (simp add: round_double_def)

lemma round_double_fixed_neg:
  "x < 0 \<Longrightarrow> round_double x = x \<Longrightarrow> round_pos (- x) = - x"
  by (simp add: round_double_def)

lemma round_double_ge_fixed:
  assumes fx: "round_double x = x" and xy: "x \<le> y"
  shows "x \<le> round_double y"
proof -
  consider "y = 0" | "0 < y" "x \<le> 0" | "0 < y" "0 < x" | "y < 0" by linarith
  then show ?thesis
  proof cases
    case 1
    then show ?thesis using xy by (simp add: round_double_def)
  next
    case 2
    then show ?thesis
      using round_double_nonneg [of y] by simp
  next
    case 3
    then show ?thesis
      using round_pos_ge_fixed [OF 3(2) round_double_fixed_pos [OF 3(2) fx] xy]
      by (simp add: round_double_def)
  next
    case 4
    then have x: "x < 0" using xy by simp
    have "round_pos (- y) \<le> - x"
      using 4 xy round_double_fixed_neg [OF x fx] by (intro round_pos_le_fixed) simp_all
    then show ?thesis
      using 4 by (simp add: round_double_def)
  qed
qed


lemma Rep_to_double: "Rep_double (to_double r) = round_double r"
  by (simp add: to_double_def Abs_double_inverse round_double_idem)

lemma Rep_double_fixed: "round_double (Rep_double x) = Rep_double x"
  using Rep_double [of x] by simp

lemma Rep_zero: "Rep_double 0 = 0"
  by (simp add: zero_double_def Rep_to_double round_double_def)

lemma Rep_plus: "Rep_double (x + y) = round_double (Rep_double x + Rep_double y)"
  by (simp add: plus_double_def Rep_to_double)

lemma Rep_js_divide: "Rep_double (js_divide x y) = round_double (Rep_double x / Rep_double y)"
  by (simp add: js_divide_def Rep_to_double)

lemma double_plus_zero: "x + 0 = (x :: double)"
  by (simp add: Rep_double_inject [symmetric] Rep_plus Rep_zero Rep_double_fixed)

lemma double_zero_plus: "0 + x = (x :: double)"
  by (simp add: Rep_double_inject [symmetric] Rep_plus Rep_zero Rep_double_fixed)

lemma double_le_plus:
  assumes "0 \<le> a"
  shows "x \<le> x + (a :: double)"
proof -
  have "Rep_double x \<le> Rep_double x + Rep_double a"
    using assms by (simp add: less_eq_double_def Rep_zero)
  with Rep_double_fixed have "Rep_double x \<le> round_double (Rep_double x + Rep_double a)"
    by (rule round_double_ge_fixed)
  then show ?thesis
    by (simp add: less_eq_double_def Rep_plus)
qed

lemma round_double_numeral:
  "(numeral k :: int) \<le> 2 ^ 53 \<Longrightarrow> round_double (numeral k) = numeral k"
  using round_double_of_int [of "numeral k"] by simp

lemma round_double_of_nat:
  "n \<le> 2 ^ 53 \<Longrightarrow> round_double (of_nat n) = of_nat n"
  using round_double_of_int [of "int n"] by simp

subsection \<open>Evaluation and decoding\<close>

lemmas example_defs = example_env_def example_event_def example_messages_def request_def
  example_decode_def example_provider_def initial_world_def

lemmas pay_defs = handlePayInvoiceRequest_def amountInSats_def invoice_param_def
  extractAmountInSats_def payInvoice_def createStrikePaymentQuote_def
  executeStrikePaymentQuote_def http_def opt_chain_def read_member_def logger_error_def

lemmas double_eval = Rep_double_inject [symmetric] less_double_def less_eq_double_def
  Rep_plus Rep_zero Rep_to_double Rep_js_divide round_double_numeral round_double_zero

lemma publish_response_frame:
  "http_log (publish_response E ev (ec, r, c, w)) = http_log w"
  "totalAmountSentInSats (publish_response E ev (ec, r, c, w)) = totalAmountSentInSats w"
  "cache_own (publish_response E ev (ec, r, c, w)) = cache_own w"
  "cache_proto (publish_response E ev (ec, r, c, w)) = cache_proto w"
  "invoked (publish_response E ev (ec, r, c, w)) = invoked w"
  by (simp_all add: publish_response_def logger_error_def split: sum.splits)

lemma decrypt_ok:
  "nip04_decrypt E s = Inr p \<Longrightarrow> JSON_parse E p = Inr c \<Longrightarrow>
   decryptNwcRequestContent E s w = (Inr c, w)"
  by (simp add: decryptNwcRequestContent_def)

lemma read_method:
  "get_prop c ''method'' = JStr m \<Longrightarrow> read_member c ''method'' = Inr (JStr m)"
  by (cases c) (simp_all add: read_member_def)

subsection \<open>What each handler leaves unchanged\<close>

lemmas strike_defs = payInvoice_def createStrikePaymentQuote_def executeStrikePaymentQuote_def
  makeInvoice_def createInvoice_def createQuote_def lookupInvoice_def getExchangeRates_def
  getAccountDetails_def getBalance_def getTransactions_def http_def


lemma make_frame:
  "handleMakeInvoiceRequest E c w = (r, w') \<Longrightarrow>
     published w' = published w \<and> invoked w' = invoked w \<and>
     totalAmountSentInSats w' = totalAmountSentInSats w"
  by (auto simp: handleMakeInvoiceRequest_def strike_defs logger_error_def cache_put_def Let_def
      split: sum.splits prod.splits if_splits)

lemma lookup_frame:
  "handleLookupInvoiceRequest E c w = (r, w') \<Longrightarrow>
     published w' = published w \<and> invoked w' = invoked w \<and>
     totalAmountSentInSats w' = totalAmountSentInSats w"
  by (auto simp: handleLookupInvoiceRequest_def strike_defs logger_error_def cache_write_back_def
      Let_def split: sum.splits prod.splits if_splits option.splits jsval.splits)

lemma rates_frame:
  "handleGetExchangeRatesRequest E c w = (r, w') \<Longrightarrow>
     published w' = published w \<and> invoked w' = invoked w \<and>
     totalAmountSentInSats w' = totalAmountSentInSats w"
  by (auto simp: handleGetExchangeRatesRequest_def strike_defs logger_error_def Let_def
      split: sum.splits prod.splits if_splits)

lemma account_frame:
  "handleGetAccountDetailsRequest E w = (r, w') \<Longrightarrow>
     published w' = published w \<and> invoked w' = invoked w \<and>
     totalAmountSentInSats w' = totalAmountSentInSats w"
  by (auto simp: handleGetAccountDetailsRequest_def strike_defs logger_error_def
      split: sum.splits prod.splits if_splits)

lemma balance_frame:
  "handleGetBalanceRequest E w = (r, w') \<Longrightarrow>
     published w' = published w \<and> invoked w' = invoked w \<and>
     totalAmountSentInSats w' = totalAmountSentInSats w"
  by (auto simp: handleGetBalanceRequest_def strike_defs logger_error_def
      split: sum.splits prod.splits if_splits)

lemma transactions_frame:
  "handleGetTransactionsRequest E c w = (r, w') \<Longrightarrow>
     published w' = published w \<and> invoked w' = invoked w \<and>
     totalAmountSentInSats w' = totalAmountSentInSats w"
  by (auto simp: handleGetTransactionsRequest_def strike_defs logger_error_def Let_def
      split: sum.splits prod.splits if_splits)




subsection \<open>Quota admission\<close>

text \<open>
  Claim C1. Whenever the amount derived from a \<open>pay_invoice\<close> request plus the current
  \<open>totalAmountSentInSats\<close> (their sum as doubles, which is what the code compares)
  exceeds \<open>TOTAL_MAX_SEND_AMOUNT_IN_SATS\<close>, the handler throws
  \<open>QUOTA_EXCEEDED\<close> and leaves the whole process state as it was: no request is sent to
  the provider and the total is unchanged. For an event of the authorized sender that
  decrypts to such a request, \<open>QUOTA_EXCEEDED\<close> is the error code of the response, and
  handling the event sends nothing to the provider and leaves the total unchanged.
\<close>

theorem pay_invoice_over_quota:
  assumes amt: "amountInSats E c = Inr a"
      and over: "totalAmountSentInSats w + a > TOTAL_MAX_SEND_AMOUNT_IN_SATS E"
  shows "handlePayInvoiceRequest E c w = (Inl QUOTA_EXCEEDED, w) \<and>
         (\<forall>ev p. nip04_decrypt E (ev_content ev) = Inr p \<and> JSON_parse E p = Inr c \<and>
                 ev_pubkey ev = NWC_CONNECTION_PUBKEY E \<and>
                 get_prop c ''method'' = JStr ''pay_invoice'' \<longrightarrow>
            handleNwcRequest_try E ev w =
              (Some QUOTA_EXCEEDED, JNull, c, call ''handlePayInvoiceRequest'' w) \<and>
            http_log (handleNwcRequest E ev w) = http_log w \<and>
            totalAmountSentInSats (handleNwcRequest E ev w) = totalAmountSentInSats w)"
proof -
  have h: "handlePayInvoiceRequest E c w' = (Inl QUOTA_EXCEEDED, w')"
    if "totalAmountSentInSats w' = totalAmountSentInSats w" for w'
    using amt over that by (simp add: handlePayInvoiceRequest_def)
  have "handleNwcRequest_try E ev w =
          (Some QUOTA_EXCEEDED, JNull, c, call ''handlePayInvoiceRequest'' w)"
    if "nip04_decrypt E (ev_content ev) = Inr p" "JSON_parse E p = Inr c"
       "ev_pubkey ev = NWC_CONNECTION_PUBKEY E" "get_prop c ''method'' = JStr ''pay_invoice''"
    for ev p
    using that h [of "call ''handlePayInvoiceRequest'' w"]
    by (simp add: handleNwcRequest_try_def decrypt_ok switch_method_def read_method call_def)
  then show ?thesis
    using h [of w]
    by (simp add: handleNwcRequest_def publish_response_frame call_def)
qed

theorem pay_invoice_over_quota_witness:
  "handlePayInvoiceRequest example_env (request ''pay_invoice'' [(''invoice'', JStr ''lnbc20u'')])
     (initial_world\<lparr>totalAmountSentInSats := to_double 9000\<rparr>) =
     (Inl QUOTA_EXCEEDED, initial_world\<lparr>totalAmountSentInSats := to_double 9000\<rparr>) \<and>
   http_log (handleNwcRequest example_env (example_event ''client'' ''pay lnbc20u'')
     (initial_world\<lparr>totalAmountSentInSats := to_double 9000\<rparr>)) = [] \<and>
   totalAmountSentInSats (handleNwcRequest example_env (example_event ''client'' ''pay lnbc20u'')
     (initial_world\<lparr>totalAmountSentInSats := to_double 9000\<rparr>)) = to_double 9000"
proof -
  let ?c = "request ''pay_invoice'' [(''invoice'', JStr ''lnbc20u'')]"
  let ?w = "initial_world\<lparr>totalAmountSentInSats := to_double 9000\<rparr>"
  have amt: "amountInSats example_env ?c = Inr (to_double 2000)"
    by (simp add: example_defs pay_defs double_eval)
  have over: "totalAmountSentInSats ?w + to_double 2000 > TOTAL_MAX_SEND_AMOUNT_IN_SATS example_env"
    by (simp add: example_defs double_eval)
  have ev: "nip04_decrypt example_env (ev_content (example_event ''client'' ''pay lnbc20u'')) =
              Inr ''pay lnbc20u'' \<and>
            JSON_parse example_env ''pay lnbc20u'' = Inr ?c \<and>
            ev_pubkey (example_event ''client'' ''pay lnbc20u'') =
              NWC_CONNECTION_PUBKEY example_env \<and>
            get_prop ?c ''method'' = JStr ''pay_invoice''"
    by (simp add: example_defs)
  from pay_invoice_over_quota [OF amt over] ev show ?thesis
    by (simp add: initial_world_def)
qed

subsection \<open>One response per message\<close>




subsection \<open>Sender check\<close>

lemma try_unauthorized:
  assumes "ev_pubkey ev \<noteq> NWC_CONNECTION_PUBKEY E"
  shows "\<exists>c line. handleNwcRequest_try E ev w = (Some UNAUTHORIZED, JNull, c, logger_error line w)"
proof (cases "nip04_decrypt E (ev_content ev)")
  case (Inl err)
  then show ?thesis
    by (auto simp: handleNwcRequest_try_def decryptNwcRequestContent_def)
next
  case (Inr p)
  then show ?thesis
    using assms
    by (cases "JSON_parse E p") (auto simp: handleNwcRequest_try_def decryptNwcRequestContent_def)
qed

text \<open>
  Claim C3. For every event whose \<open>pubkey\<close> differs from \<open>NWC_CONNECTION_PUBKEY\<close>, the
  first \<open>try\<close> ends with error code \<open>UNAUTHORIZED\<close>; no handler is called and no request
  is sent to the provider, and the total and the cache are unchanged. The response is
  built from the content with error code \<open>UNAUTHORIZED\<close>: when encrypting that content and
  signing the event succeed, exactly one event is published, its content is the
  encryption of that content and its \<open>e\<close> tag is the identifier of the request; when
  either fails, nothing is published.
\<close>

theorem unauthorized_sender_rejected:
  assumes sender: "ev_pubkey ev \<noteq> NWC_CONNECTION_PUBKEY E"
  shows "\<exists>c w1. handleNwcRequest_try E ev w = (Some UNAUTHORIZED, JNull, c, w1) \<and>
           invoked w1 = invoked w \<and> http_log w1 = http_log w \<and>
           totalAmountSentInSats w1 = totalAmountSentInSats w \<and>
           cache_own w1 = cache_own w \<and> cache_proto w1 = cache_proto w \<and>
           invoked (handleNwcRequest E ev w) = invoked w \<and>
           http_log (handleNwcRequest E ev w) = http_log w \<and>
           response_content_for E ev w =
             \<lparr>result_type = requestMethod_of c,
              resp_error =
                Some (UNAUTHORIZED,
                      ''Unable to decrypt NWC request content or unauthorized sender.''),
              resp_result = None\<rparr> \<and>
           (case nip04_encrypt E (response_content_for E ev w) of
              Inl err \<Rightarrow> published (handleNwcRequest E ev w) = published w
            | Inr encryptedContent \<Rightarrow>
                (case sign_event E
                        \<lparr>ev_kind = 23195,
                         ev_created_at = (Date_now E (length (published w)) + 500) div 1000,
                         ev_content = encryptedContent,
                         ev_tags = [[''p'', AUTHORIZED_PUBKEY E], [''e'', ev_id ev]],
                         ev_id = [], ev_pubkey = [], ev_sig = []\<rparr> of
                   Inl err \<Rightarrow> published (handleNwcRequest E ev w) = published w
                 | Inr (i, p, s) \<Rightarrow>
                     published (handleNwcRequest E ev w) =
                       published w @
                       [\<lparr>ev_kind = 23195,
                         ev_created_at = (Date_now E (length (published w)) + 500) div 1000,
                         ev_content = encryptedContent,
                         ev_tags = [[''p'', AUTHORIZED_PUBKEY E], [''e'', ev_id ev]],
                         ev_id = i, ev_pubkey = p, ev_sig = s\<rparr>]))"
proof -
  obtain c line where
    t0: "handleNwcRequest_try E ev w = (Some UNAUTHORIZED, JNull, c, logger_error line w)"
    using try_unauthorized [OF sender] by blast
  define w1 where "w1 = logger_error line w"
  have t: "handleNwcRequest_try E ev w = (Some UNAUTHORIZED, JNull, c, w1)"
    using t0 by (simp add: w1_def)
  have f: "invoked w1 = invoked w" "http_log w1 = http_log w"
         "totalAmountSentInSats w1 = totalAmountSentInSats w"
         "cache_own w1 = cache_own w" "cache_proto w1 = cache_proto w" "published w1 = published w"
    by (simp_all add: w1_def logger_error_def)
  have rc: "response_content_for E ev w =
             \<lparr>result_type = requestMethod_of c,
              resp_error =
                Some (UNAUTHORIZED,
                      ''Unable to decrypt NWC request content or unauthorized sender.''),
              resp_result = None\<rparr>"
    using t by (simp add: response_content_for_def response_content_of_def getErrorMessage_def)
  have rc': "response_content_of E (requestMethod_of c) JNull (Some UNAUTHORIZED) =
               response_content_for E ev w"
    using t by (simp add: response_content_for_def)
  have pub: "published (handleNwcRequest E ev w) =
               (case makeNwcResponseEvent E (Date_now E (length (published w))) (ev_id ev)
                       (requestMethod_of c) JNull (Some UNAUTHORIZED) of
                  Inl err \<Rightarrow> published w
                | Inr resp \<Rightarrow> published w @ [resp])"
    using t f
    by (simp add: handleNwcRequest_def publish_response_def logger_error_def split: sum.splits)
  have out: "(case nip04_encrypt E (response_content_for E ev w) of
              Inl err \<Rightarrow> published (handleNwcRequest E ev w) = published w
            | Inr encryptedContent \<Rightarrow>
                (case sign_event E
                        \<lparr>ev_kind = 23195,
                         ev_created_at = (Date_now E (length (published w)) + 500) div 1000,
                         ev_content = encryptedContent,
                         ev_tags = [[''p'', AUTHORIZED_PUBKEY E], [''e'', ev_id ev]],
                         ev_id = [], ev_pubkey = [], ev_sig = []\<rparr> of
                   Inl err \<Rightarrow> published (handleNwcRequest E ev w) = published w
                 | Inr (i, p, s) \<Rightarrow>
                     published (handleNwcRequest E ev w) =
                       published w @
                       [\<lparr>ev_kind = 23195,
                         ev_created_at = (Date_now E (length (published w)) + 500) div 1000,
                         ev_content = encryptedContent,
                         ev_tags = [[''p'', AUTHORIZED_PUBKEY E], [''e'', ev_id ev]],
                         ev_id = i, ev_pubkey = p, ev_sig = s\<rparr>]))"
    unfolding pub makeNwcResponseEvent_def rc'
    by (simp add: Let_def split: sum.splits prod.splits)
  show ?thesis
    using t f rc out by (simp add: handleNwcRequest_def publish_response_frame)
qed

theorem unauthorized_sender_rejected_witness:
  "ev_pubkey (example_event ''mallory'' ''pay lnbc15n'') \<noteq> NWC_CONNECTION_PUBKEY example_env \<and>
   invoked (handleNwcRequest example_env (example_event ''mallory'' ''pay lnbc15n'')
     initial_world) = [] \<and>
   http_log (handleNwcRequest example_env (example_event ''mallory'' ''pay lnbc15n'')
     initial_world) = [] \<and>
   resp_error (response_content_for example_env (example_event ''mallory'' ''pay lnbc15n'')
     initial_world) =
     Some (UNAUTHORIZED, ''Unable to decrypt NWC request content or unauthorized sender.'') \<and>
   published (handleNwcRequest example_env (example_event ''mallory'' ''pay lnbc15n'')
     initial_world) =
     [\<lparr>ev_kind = 23195, ev_created_at = 1700000000, ev_content = UNAUTHORIZED,
       ev_tags = [[''p'', ''client''], [''e'', ''request-id'']],
       ev_id = ''response-id'', ev_pubkey = ''service'', ev_sig = ''signature''\<rparr>]"
proof -
  let ?ev = "example_event ''mallory'' ''pay lnbc15n''"
  have h: "ev_pubkey ?ev \<noteq> NWC_CONNECTION_PUBKEY example_env"
    by (simp add: example_defs)
  obtain c where
    rc: "response_content_for example_env ?ev initial_world =
           \<lparr>result_type = requestMethod_of c,
            resp_error =
              Some (UNAUTHORIZED,
                    ''Unable to decrypt NWC request content or unauthorized sender.''),
            resp_result = None\<rparr>"
    and f: "invoked (handleNwcRequest example_env ?ev initial_world) = invoked initial_world"
           "http_log (handleNwcRequest example_env ?ev initial_world) = http_log initial_world"
    and out: "(case nip04_encrypt example_env (response_content_for example_env ?ev initial_world) of
              Inl err \<Rightarrow> published (handleNwcRequest example_env ?ev initial_world) =
                          published initial_world
            | Inr encryptedContent \<Rightarrow>
                (case sign_event example_env
                        \<lparr>ev_kind = 23195,
                         ev_created_at =
                           (Date_now example_env (length (published initial_world)) + 500)
                             div 1000,
                         ev_content = encryptedContent,
                         ev_tags = [[''p'', AUTHORIZED_PUBKEY example_env], [''e'', ev_id ?ev]],
                         ev_id = [], ev_pubkey = [], ev_sig = []\<rparr> of
                   Inl err \<Rightarrow> published (handleNwcRequest example_env ?ev initial_world) =
                               published initial_world
                 | Inr (i, p, s) \<Rightarrow>
                     published (handleNwcRequest example_env ?ev initial_world) =
                       published initial_world @
                       [\<lparr>ev_kind = 23195,
                         ev_created_at =
                           (Date_now example_env (length (published initial_world)) + 500)
                             div 1000,
                         ev_content = encryptedContent,
                         ev_tags = [[''p'', AUTHORIZED_PUBKEY example_env], [''e'', ev_id ?ev]],
                         ev_id = i, ev_pubkey = p, ev_sig = s\<rparr>]))"
    using unauthorized_sender_rejected [OF h, of initial_world] by blast
  have enc: "nip04_encrypt example_env (response_content_for example_env ?ev initial_world) =
               Inr UNAUTHORIZED"
    by (simp add: rc) (simp add: example_env_def)
  have pub: "published (handleNwcRequest example_env ?ev initial_world) =
     [\<lparr>ev_kind = 23195, ev_created_at = 1700000000, ev_content = UNAUTHORIZED,
       ev_tags = [[''p'', ''client''], [''e'', ''request-id'']],
       ev_id = ''response-id'', ev_pubkey = ''service'', ev_sig = ''signature''\<rparr>]"
    using out unfolding enc by (simp add: example_env_def example_event_def initial_world_def)
  show ?thesis
    using h f pub by (simp add: rc) (simp add: initial_world_def)
qed

subsection \<open>Error codes that reach the response builder\<close>

lemmas pipeline_defs = handleNwcRequest_def handleNwcRequest_try_def publish_response_def
  decryptNwcRequestContent_def switch_method_def call_def read_member_def logger_error_def
  makeNwcResponseEvent_def response_content_of_def requestMethod_of_def opt_chain_def
  getErrorMessage_def response_content_for_def

text \<open>
  Claim C4. The claim is that only the seven codes of the taxonomy reach the response
  builder. \<open>handleMakeInvoiceRequest\<close> destructures \<open>nwcRequestContent.params\<close> before its
  \<open>try\<close>: for a \<open>make_invoice\<close> request of the authorized sender that has no \<open>params\<close>,
  the TypeError escapes the handler, \<open>handleNwcRequest\<close> takes its message as \<open>errorCode\<close>,
  and the response carries that message as its error code, which is none of the seven.
\<close>

theorem make_invoice_without_params_unclassified:
  "handleNwcRequest_try example_env (example_event ''client'' ''make nothing'') initial_world =
     (Some ''Cannot destructure property amount as it is undefined.'', JNull,
      JObj [(''method'', JStr ''make_invoice'')],
      initial_world\<lparr>invoked := [''handleMakeInvoiceRequest'']\<rparr>) \<and>
   resp_error (response_content_for example_env (example_event ''client'' ''make nothing'')
     initial_world) =
     Some (''Cannot destructure property amount as it is undefined.'',
           ''Something unexpected happened.'') \<and>
   ''Cannot destructure property amount as it is undefined.'' \<notin> set error_taxonomy"
  by (simp add: example_defs pipeline_defs handleMakeInvoiceRequest_def destructure_error_def
      error_taxonomy_def)

subsection \<open>Unsupported methods\<close>




subsection \<open>Pagination bounds\<close>

lemma three_halves_not_int: "(3 / 2 :: rat) \<notin> \<int>"
proof
  assume "(3 / 2 :: rat) \<in> \<int>"
  then obtain k :: int where k: "(3 / 2 :: rat) = of_int k"
    by (rule Ints_cases)
  then have "(of_int (2 * k) :: rat) = of_int 3"
    by simp
  then have "2 * k = 3"
    by (simp only: of_int_eq_iff)
  then show False
    by presburger
qed

lemma get_transactions_fraction:
  "handleGetTransactionsRequest example_env
     (request ''get_transactions'' [(''limit'', JNum (3 / 2))]) initial_world =
     (Inr (JArr []), initial_world\<lparr>http_log := [GetTransactions (JNum (3 / 2)) (JNum 0)]\<rparr>)"
  by (simp add: example_defs handleGetTransactionsRequest_def limit_param_def offset_param_def
      opt_chain_def isNaN_def js_lt_def js_gt_def getTransactions_def http_def)

text \<open>
  Claim C5, as stated, fails: the limit need not be an integer. \<open>limit = 1.5\<close> passes the
  checks and the provider is asked for the transactions with limit \<open>1.5\<close>.
\<close>

theorem get_transactions_fraction_accepted:
  "handleGetTransactionsRequest example_env
     (request ''get_transactions'' [(''limit'', JNum (3 / 2))]) initial_world =
     (Inr (JArr []), initial_world\<lparr>http_log := [GetTransactions (JNum (3 / 2)) (JNum 0)]\<rparr>) \<and>
   (3 / 2 :: rat) \<notin> \<int>"
  using get_transactions_fraction three_halves_not_int by (rule conjI)

text \<open>\<open>limit = 0\<close> is falsy, so \<open>params?.limit || 10\<close> replaces it by the default before the
  bounds are checked.\<close>

lemma get_transactions_limit_zero:
  "handleGetTransactionsRequest example_env
     (request ''get_transactions'' [(''limit'', JNum 0)]) initial_world =
     (Inr (JArr []), initial_world\<lparr>http_log := [GetTransactions (JNum 10) (JNum 0)]\<rparr>)"
  by (simp add: example_defs handleGetTransactionsRequest_def limit_param_def offset_param_def
      opt_chain_def isNaN_def js_lt_def js_gt_def getTransactions_def http_def)

text \<open>
  Claim C5, amended. An absent limit is taken as 10 and an absent offset as 0. For a
  limit that is absent or a number other than 0, and an offset that is absent or a
  number: if \<open>1 \<le> limit \<le> 100\<close> and \<open>0 \<le> offset\<close> the provider is asked for the transactions
  with this limit and offset, and its answer is the result; otherwise the handler throws
  \<open>INVALID_PARAMS\<close> and leaves the state as it was, so the provider is not called. Whether
  the numbers are integers is not checked. In particular \<open>limit = 101\<close> and \<open>offset = -1\<close>
  are rejected and \<open>limit = 1\<close> and \<open>limit = 100\<close> are accepted.
\<close>

theorem get_transactions_bounds:
  assumes L: "opt_chain (get_prop c ''params'') ''limit'' = JUndefined \<and> l = 10 \<or>
              opt_chain (get_prop c ''params'') ''limit'' = JNum l \<and> l \<noteq> 0"
      and F: "opt_chain (get_prop c ''params'') ''offset'' = JUndefined \<and> off = 0 \<or>
              opt_chain (get_prop c ''params'') ''offset'' = JNum off"
  shows "limit_param c = JNum l \<and> offset_param c = JNum off \<and>
         (if 1 \<le> l \<and> l \<le> 100 \<and> 0 \<le> off
          then http_log (snd (handleGetTransactionsRequest E c w)) =
                 http_log w @ [GetTransactions (JNum l) (JNum off)] \<and>
               (\<forall>t. axios E (http_log w) (GetTransactions (JNum l) (JNum off)) = Inr t \<longrightarrow>
                    fst (handleGetTransactionsRequest E c w) = Inr t)
          else handleGetTransactionsRequest E c w = (Inl INVALID_PARAMS, w))"
proof -
  have l: "limit_param c = JNum l"
    using L by (auto simp: limit_param_def)
  have f: "offset_param c = JNum off"
    using F by (auto simp: offset_param_def)
  show ?thesis
    by (auto simp: l f handleGetTransactionsRequest_def isNaN_def js_lt_def js_gt_def
        getTransactions_def http_def logger_error_def Let_def split: sum.splits)
qed

theorem get_transactions_bounds_witness:
  "handleGetTransactionsRequest example_env
     (request ''get_transactions'' [(''limit'', JNum 101)]) initial_world =
     (Inl INVALID_PARAMS, initial_world) \<and>
   handleGetTransactionsRequest example_env
     (request ''get_transactions'' [(''offset'', JNum (- 1))]) initial_world =
     (Inl INVALID_PARAMS, initial_world) \<and>
   http_log (snd (handleGetTransactionsRequest example_env
     (request ''get_transactions'' [(''limit'', JNum 1)]) initial_world)) =
     [GetTransactions (JNum 1) (JNum 0)] \<and>
   http_log (snd (handleGetTransactionsRequest example_env
     (request ''get_transactions'' [(''limit'', JNum 100)]) initial_world)) =
     [GetTransactions (JNum 100) (JNum 0)] \<and>
   http_log (snd (handleGetTransactionsRequest example_env
     (JObj [(''method'', JStr ''get_transactions'')]) initial_world)) =
     [GetTransactions (JNum 10) (JNum 0)]"
proof -
  have e: "http_log initial_world = []"
    by (simp add: initial_world_def)
  note b = get_transactions_bounds [where E = example_env and w = initial_world]
  have 1: "handleGetTransactionsRequest example_env
     (request ''get_transactions'' [(''limit'', JNum 101)]) initial_world =
     (Inl INVALID_PARAMS, initial_world)"
    using b [where c = "request ''get_transactions'' [(''limit'', JNum 101)]" and l = 101
               and off = 0]
    by (simp add: request_def opt_chain_def)
  have 2: "handleGetTransactionsRequest example_env
     (request ''get_transactions'' [(''offset'', JNum (- 1))]) initial_world =
     (Inl INVALID_PARAMS, initial_world)"
    using b [where c = "request ''get_transactions'' [(''offset'', JNum (- 1))]" and l = 10
               and off = "- 1"]
    by (simp add: request_def opt_chain_def)
  have 3: "http_log (snd (handleGetTransactionsRequest example_env
     (request ''get_transactions'' [(''limit'', JNum 1)]) initial_world)) =
     [GetTransactions (JNum 1) (JNum 0)]"
    using b [where c = "request ''get_transactions'' [(''limit'', JNum 1)]" and l = 1 and off = 0]
    by (simp add: request_def opt_chain_def e)
  have 4: "http_log (snd (handleGetTransactionsRequest example_env
     (request ''get_transactions'' [(''limit'', JNum 100)]) initial_world)) =
     [GetTransactions (JNum 100) (JNum 0)]"
    using b [where c = "request ''get_transactions'' [(''limit'', JNum 100)]" and l = 100
               and off = 0]
    by (simp add: request_def opt_chain_def e)
  have 5: "http_log (snd (handleGetTransactionsRequest example_env
     (JObj [(''method'', JStr ''get_transactions'')]) initial_world)) =
     [GetTransactions (JNum 10) (JNum 0)]"
    using b [where c = "JObj [(''method'', JStr ''get_transactions'')]" and l = 10 and off = 0]
    by (simp add: opt_chain_def e)
  from 1 2 3 4 5 show ?thesis by blast
qed


subsection \<open>A pay request without invoice\<close>

text \<open>
  Claim C10. When \<open>params?.invoice\<close> of a \<open>pay_invoice\<close> request is \<open>undefined\<close>, the derived
  amount is 0. If the total is at or below the ceiling the admission check passes and
  the first request the handler sends to the provider is the payment quote for the
  \<open>undefined\<close> invoice; if \<open>payInvoice\<close> fails, the handler throws \<open>PAYMENT_FAILED\<close> and the
  total is unchanged. In no case does the handler throw \<open>INVALID_PARAMS\<close>.
\<close>

theorem pay_invoice_absent_invoice:
  assumes absent: "invoice_param c = JUndefined"
  shows "amountInSats E c = Inr 0 \<and>
         (totalAmountSentInSats w \<le> TOTAL_MAX_SEND_AMOUNT_IN_SATS E \<longrightarrow>
            (\<exists>rest. http_log (snd (handlePayInvoiceRequest E c w)) =
                      http_log w @ PostPaymentQuote JUndefined (STRIKE_SOURCE_CURRENCY E) # rest) \<and>
            (\<forall>err. fst (payInvoice E JUndefined w) = Inl err \<longrightarrow>
                   fst (handlePayInvoiceRequest E c w) = Inl PAYMENT_FAILED \<and>
                   totalAmountSentInSats (snd (handlePayInvoiceRequest E c w)) =
                     totalAmountSentInSats w)) \<and>
         fst (handlePayInvoiceRequest E c w) \<noteq> Inl INVALID_PARAMS"
proof -
  have a: "amountInSats E c = Inr 0"
    using absent by (simp add: amountInSats_def)
  show ?thesis
    using absent
    by (auto simp: a handlePayInvoiceRequest_def payInvoice_def createStrikePaymentQuote_def
        executeStrikePaymentQuote_def http_def logger_error_def double_plus_zero
        split: sum.splits prod.splits if_splits)
qed

theorem pay_invoice_absent_invoice_witness:
  "invoice_param (JObj [(''method'', JStr ''pay_invoice'')]) = JUndefined \<and>
   handlePayInvoiceRequest example_env (JObj [(''method'', JStr ''pay_invoice'')]) initial_world =
     (Inl PAYMENT_FAILED,
      initial_world
        \<lparr>http_log := [PostPaymentQuote JUndefined (JStr ''USD'')],
         error_log := [''Error making payment: Request failed with status code 400'']\<rparr>)"
proof -
  let ?c = "JObj [(''method'', JStr ''pay_invoice'')]"
  have absent: "invoice_param ?c = JUndefined"
    by (simp add: invoice_param_def opt_chain_def)
  have "handlePayInvoiceRequest example_env ?c initial_world =
     (Inl PAYMENT_FAILED,
      initial_world
        \<lparr>http_log := [PostPaymentQuote JUndefined (JStr ''USD'')],
         error_log := [''Error making payment: Request failed with status code 400'']\<rparr>)"
    using pay_invoice_absent_invoice [OF absent, of example_env initial_world]
    by (simp add: example_defs pay_defs double_eval)
  then show ?thesis
    using absent by simp
qed

subsection \<open>The invoice cache\<close>

text \<open>For a key that is neither an own property of the cache nor a name the cache
  inherits, the lookup answers \<open>NOT_FOUND\<close> and changes nothing.\<close>

lemma params_present:
  "get_prop (get_prop c ''params'') k = JStr s \<Longrightarrow> \<not> nullish (get_prop c ''params'')"
  by (cases "get_prop c ''params''") simp_all

lemma lookup_absent_not_found:
  assumes req: "get_prop (get_prop c ''params'') ''invoice'' = JStr k"
      and absent: "cache_own w k = None" "cache_proto w = None"
      and k: "k \<noteq> ''__proto__''" "k \<notin> set Object_prototype_names"
  shows "handleLookupInvoiceRequest E c w = (Inl NOT_FOUND, w)"
  using params_present [OF req] req absent k
  by (simp add: handleLookupInvoiceRequest_def cache_get_def inherited_def)

text \<open>After a successful \<open>make_invoice\<close> that returned the invoice string \<open>s\<close>, the record is
  found under \<open>s\<close>, and a \<open>lookup_invoice\<close> for \<open>s\<close> whose provider query answers the state
  \<open>st\<close> returns the record with \<open>metadata.state\<close> set to \<open>st\<close>.\<close>

lemma cache_get_put:
  "cache_get (cache_put w k r) k = JObj r"
  by (simp add: cache_get_def cache_put_def)

lemma cache_put_http_log:
  "http_log (cache_put w k r) = http_log w"
  by (simp add: cache_put_def)

lemma make_result:
  assumes make: "handleMakeInvoiceRequest E c w = (Inr r, w1)"
  shows "\<exists>invoiceId invoice state createdAt expiresAt w'.
           makeInvoice E (get_prop (get_prop c ''params'') ''amount'')
             (get_prop (get_prop c ''params'') ''description'') w =
             (Inr (invoiceId, invoice, state, createdAt, expiresAt), w') \<and>
           r = JObj [(''type'', JStr ''incoming''), (''invoice'', invoice),
                     (''description'', get_prop (get_prop c ''params'') ''description''),
                     (''amount'', get_prop (get_prop c ''params'') ''amount''),
                     (''created_at'', createdAt), (''expires_at'', expiresAt),
                     (''metadata'', JObj [(''state'', state), (''invoice_id'', invoiceId)])] \<and>
           cache_get w1 (ToString E invoice) = r \<and> http_log w1 = http_log w'"
  using make
  by (auto simp: handleMakeInvoiceRequest_def Let_def cache_get_put cache_put_http_log
      split: if_splits sum.splits prod.splits)

lemma make_then_lookup:
  assumes make: "handleMakeInvoiceRequest E c w = (Inr r, w1)"
      and s: "get_prop r ''invoice'' = JStr s"
      and req: "get_prop (get_prop c' ''params'') ''invoice'' = JStr s"
      and prov: "lookupInvoice E (get_prop (get_prop r ''metadata'') ''invoice_id'') w1 =
                   (Inr st, w2)"
  shows "cache_get w1 s = r \<and>
         handleLookupInvoiceRequest E c' w1 =
           (Inr (set_state r st), cache_write_back w2 s (set_state r st)) \<and>
         get_prop (get_prop (set_state r st) ''metadata'') ''state'' = st \<and>
         get_prop (set_state r st) ''invoice'' = JStr s"
proof -
  obtain invoiceId invoice state createdAt expiresAt where
    r: "r = JObj [(''type'', JStr ''incoming''), (''invoice'', invoice),
                  (''description'', get_prop (get_prop c ''params'') ''description''),
                  (''amount'', get_prop (get_prop c ''params'') ''amount''),
                  (''created_at'', createdAt), (''expires_at'', expiresAt),
                  (''metadata'', JObj [(''state'', state), (''invoice_id'', invoiceId)])]"
    and g: "cache_get w1 (ToString E invoice) = r"
    using make_result [OF make] by blast
  have inv: "invoice = JStr s"
    using s by (simp add: r)
  have g': "cache_get w1 s = r"
    using g by (simp add: inv)
  have id: "get_prop (get_prop r ''metadata'') ''invoice_id'' = invoiceId"
    by (simp add: r)
  have look: "handleLookupInvoiceRequest E c' w1 =
                (Inr (set_state r st), cache_write_back w2 s (set_state r st))"
    using params_present [OF req] req g' prov
    by (simp add: handleLookupInvoiceRequest_def Let_def r read_member_def)
  show ?thesis
    using g' look by (simp add: r set_state_def inv)
qed

text \<open>
  Claim C9. The claim is that looking up an invoice string that no \<open>make_invoice\<close> has
  cached answers \<open>NOT_FOUND\<close> without a provider call, and that after a successful
  \<open>make_invoice\<close> the lookup of the returned string finds the record and returns it with
  the provider's latest state. The second half holds (\<open>make_then_lookup\<close>); the first
  does not for every string. The cache is a plain object, and
  \<open>cachedInvoiceResults[invoice]\<close> also finds what the object inherits: with an empty
  cache, \<open>lookup_invoice\<close> for the string \<open>constructor\<close> gets past the \<open>NOT_FOUND\<close> check,
  fails on \<open>metadata.invoice_id\<close> inside the \<open>try\<close>, and answers \<open>INTERNAL\<close> (without a
  provider call).
\<close>

theorem lookup_inherited_key_internal:
  "handleNwcRequest_try example_env (example_event ''client'' ''lookup constructor'') initial_world =
     (Some INTERNAL, JNull, request ''lookup_invoice'' [(''invoice'', JStr ''constructor'')],
      initial_world
        \<lparr>error_log :=
           [''Error looking up invoice: Cannot read properties of undefined (reading invoice_id)''],
         invoked := [''handleLookupInvoiceRequest'']\<rparr>) \<and>
   cache_own initial_world ''constructor'' = None"
  by (simp add: example_defs pipeline_defs handleLookupInvoiceRequest_def cache_get_def
      inherited_def Object_prototype_names_def read_error_def)


subsection \<open>The running total\<close>

lemma js_divide_nonneg:
  assumes "0 \<le> r"
  shows "0 \<le> js_divide (to_double r) (to_double 1000)"
proof -
  have "0 \<le> round_double r / round_double 1000"
    using assms by (simp add: round_double_numeral round_double_nonneg)
  then show ?thesis
    by (simp add: less_eq_double_def Rep_zero Rep_js_divide Rep_to_double round_double_nonneg)
qed

lemma amount_nonneg:
  "amountInSats E c = Inr a \<Longrightarrow> 0 \<le> a"
  by (auto simp: amountInSats_def extractAmountInSats_def Let_def js_divide_nonneg
      split: if_splits sum.splits option.splits)

lemma pay_outcome:
  assumes h: "handlePayInvoiceRequest E c w = (r, w')"
  shows "(\<exists>e. r = Inl e) \<and> totalAmountSentInSats w' = totalAmountSentInSats w \<or>
     r = Inr (JObj [(''preimage'', JStr ''gfy'')]) \<and>
     (\<exists>a q receipt.
        amountInSats E c = Inr a \<and>
        totalAmountSentInSats w + a \<le> TOTAL_MAX_SEND_AMOUNT_IN_SATS E \<and>
        totalAmountSentInSats w' = totalAmountSentInSats w + a \<and>
        http_log w' =
          http_log w @ [PostPaymentQuote (invoice_param c) (STRIKE_SOURCE_CURRENCY E),
                        PatchExecuteQuote q] \<and>
        axios E (http_log w @ [PostPaymentQuote (invoice_param c) (STRIKE_SOURCE_CURRENCY E)])
          (PatchExecuteQuote q) = Inr receipt)"
proof (cases "amountInSats E c")
  case (Inl err)
  then show ?thesis
    using h by (auto simp: handlePayInvoiceRequest_def)
next
  case (Inr a)
  show ?thesis
  proof (cases "totalAmountSentInSats w + a > TOTAL_MAX_SEND_AMOUNT_IN_SATS E")
    case True
    then show ?thesis
      using h Inr by (auto simp: handlePayInvoiceRequest_def)
  next
    case False
    then show ?thesis
      using h Inr
      by (auto simp: handlePayInvoiceRequest_def payInvoice_def createStrikePaymentQuote_def
          executeStrikePaymentQuote_def http_def logger_error_def read_member_def
          split: sum.splits prod.splits if_splits)
  qed
qed

lemma call_frame:
  "totalAmountSentInSats (call h w) = totalAmountSentInSats w"
  "http_log (call h w) = http_log w"
  by (simp_all add: call_def)

lemma switch_total:
  assumes s: "switch_method E c w = (r, w')"
  shows "totalAmountSentInSats w' = totalAmountSentInSats w \<or>
         get_prop c ''method'' = JStr ''pay_invoice'' \<and> (\<exists>v. r = Inr v) \<and>
         (\<exists>a q receipt.
            amountInSats E c = Inr a \<and>
            totalAmountSentInSats w' = totalAmountSentInSats w + a \<and>
            http_log w' =
              http_log w @ [PostPaymentQuote (invoice_param c) (STRIKE_SOURCE_CURRENCY E),
                            PatchExecuteQuote q] \<and>
            axios E (http_log w @ [PostPaymentQuote (invoice_param c) (STRIKE_SOURCE_CURRENCY E)])
              (PatchExecuteQuote q) = Inr receipt)"
proof (cases "nullish c")
  case True
  then show ?thesis
    using s by (simp add: switch_method_def read_member_def)
next
  case False
  define m where "m = get_prop c ''method''"
  have rm: "read_member c ''method'' = Inr m"
    using False by (simp add: read_member_def m_def)
  consider (pay) "m = JStr ''pay_invoice''" | (make) "m = JStr ''make_invoice''"
    | (lookup) "m = JStr ''lookup_invoice''" | (rates) "m = JStr ''get_exchange_rates''"
    | (account) "m = JStr ''get_account_details''" | (balance) "m = JStr ''get_balance''"
    | (transactions) "m = JStr ''get_transactions''"
    | (other) "m \<notin> JStr ` set supported_methods"
    by (auto simp: supported_methods_def)
  then show ?thesis
  proof cases
    case pay
    then have "handlePayInvoiceRequest E c (call ''handlePayInvoiceRequest'' w) = (r, w')"
      using s rm by (simp add: switch_method_def)
    from pay_outcome [OF this] show ?thesis
      using pay by (auto simp: call_frame m_def)
  next
    case make
    then have "handleMakeInvoiceRequest E c (call ''handleMakeInvoiceRequest'' w) = (r, w')"
      using s rm by (simp add: switch_method_def)
    from make_frame [OF this] show ?thesis
      by (simp add: call_frame)
  next
    case lookup
    then have "handleLookupInvoiceRequest E c (call ''handleLookupInvoiceRequest'' w) = (r, w')"
      using s rm by (simp add: switch_method_def)
    from lookup_frame [OF this] show ?thesis
      by (simp add: call_frame)
  next
    case rates
    then have "handleGetExchangeRatesRequest E c (call ''handleGetExchangeRatesRequest'' w) =
                 (r, w')"
      using s rm by (simp add: switch_method_def)
    from rates_frame [OF this] show ?thesis
      by (simp add: call_frame)
  next
    case account
    then have "handleGetAccountDetailsRequest E (call ''handleGetAccountDetailsRequest'' w) =
                 (r, w')"
      using s rm by (simp add: switch_method_def)
    from account_frame [OF this] show ?thesis
      by (simp add: call_frame)
  next
    case balance
    then have "handleGetBalanceRequest E (call ''handleGetBalanceRequest'' w) = (r, w')"
      using s rm by (simp add: switch_method_def)
    from balance_frame [OF this] show ?thesis
      by (simp add: call_frame)
  next
    case transactions
    then have "handleGetTransactionsRequest E c (call ''handleGetTransactionsRequest'' w) =
                 (r, w')"
      using s rm by (simp add: switch_method_def)
    from transactions_frame [OF this] show ?thesis
      by (simp add: call_frame)
  next
    case other
    then show ?thesis
      using s rm by (simp add: switch_method_def supported_methods_def)
  qed
qed

lemma try_total:
  assumes t: "handleNwcRequest_try E ev w = (ec, r, c, w1)"
  shows "totalAmountSentInSats w1 = totalAmountSentInSats w \<or>
         ec = None \<and>
         (\<exists>p a q receipt.
            nip04_decrypt E (ev_content ev) = Inr p \<and> JSON_parse E p = Inr c \<and>
            ev_pubkey ev = NWC_CONNECTION_PUBKEY E \<and>
            get_prop c ''method'' = JStr ''pay_invoice'' \<and>
            amountInSats E c = Inr a \<and>
            totalAmountSentInSats w1 = totalAmountSentInSats w + a \<and>
            http_log w1 =
              http_log w @ [PostPaymentQuote (invoice_param c) (STRIKE_SOURCE_CURRENCY E),
                            PatchExecuteQuote q] \<and>
            axios E (http_log w @ [PostPaymentQuote (invoice_param c) (STRIKE_SOURCE_CURRENCY E)])
              (PatchExecuteQuote q) = Inr receipt)"
proof (cases "nip04_decrypt E (ev_content ev)")
  case (Inl err)
  then show ?thesis
    using t by (auto simp: handleNwcRequest_try_def decryptNwcRequestContent_def logger_error_def)
next
  case p: (Inr p)
  show ?thesis
  proof (cases "JSON_parse E p")
    case (Inl err)
    then show ?thesis
      using t p
      by (auto simp: handleNwcRequest_try_def decryptNwcRequestContent_def logger_error_def)
  next
    case c': (Inr c')
    have d: "decryptNwcRequestContent E (ev_content ev) w = (Inr c', w)"
      using p c' by (rule decrypt_ok)
    show ?thesis
    proof (cases "ev_pubkey ev = NWC_CONNECTION_PUBKEY E")
      case False
      then show ?thesis
        using t d by (auto simp: handleNwcRequest_try_def logger_error_def)
    next
      case True
      obtain r' w2 where s: "switch_method E c' w = (r', w2)"
        by (cases "switch_method E c' w") auto
      have e: "c = c'" "w1 = w2" "ec = None \<longleftrightarrow> (\<exists>v. r' = Inr v)"
        using t d True s by (auto simp: handleNwcRequest_try_def split: sum.splits)
      from switch_total [OF s] show ?thesis
        using e p c' True by auto
    qed
  qed
qed

lemma handle_total:
  "totalAmountSentInSats (handleNwcRequest E ev w) =
     totalAmountSentInSats (snd (snd (snd (handleNwcRequest_try E ev w))))"
  by (cases "handleNwcRequest_try E ev w")
     (simp add: handleNwcRequest_def publish_response_frame)

lemma handle_http_log:
  "http_log (handleNwcRequest E ev w) = http_log (snd (snd (snd (handleNwcRequest_try E ev w))))"
  by (cases "handleNwcRequest_try E ev w")
     (simp add: handleNwcRequest_def publish_response_frame)

lemma handle_step:
  "totalAmountSentInSats (handleNwcRequest E ev w) = totalAmountSentInSats w \<or>
   (\<exists>a. 0 \<le> a \<and>
        totalAmountSentInSats (handleNwcRequest E ev w) = totalAmountSentInSats w + a)"
proof -
  obtain ec r c w1 where t: "handleNwcRequest_try E ev w = (ec, r, c, w1)"
    by (cases "handleNwcRequest_try E ev w") auto
  from try_total [OF t] show ?thesis
    using t by (auto simp: handle_total dest: amount_nonneg)
qed

lemma handle_mono:
  "totalAmountSentInSats w \<le> totalAmountSentInSats (handleNwcRequest E ev w)"
  using handle_step [of E ev w] by (auto simp: double_le_plus)

lemma handle_all_nonneg:
  "0 \<le> totalAmountSentInSats w \<Longrightarrow> 0 \<le> totalAmountSentInSats (handle_all E evs w)"
proof (induction evs arbitrary: w)
  case Nil
  then show ?case by simp
next
  case (Cons ev evs)
  have "0 \<le> totalAmountSentInSats (handleNwcRequest E ev w)"
    using Cons.prems handle_mono [of w E ev] by (rule order_trans)
  then show ?case
    using Cons.IH by simp
qed

lemma round_three_halves: "round_double (3 / 2) = 3 / 2"
  by code_simp

lemma pay_lnbc15n:
  "handleNwcRequest_try example_env (example_event ''client'' ''pay lnbc15n'') initial_world =
     (None, JObj [(''preimage'', JStr ''gfy'')],
      request ''pay_invoice'' [(''invoice'', JStr ''lnbc15n'')],
      initial_world
        \<lparr>totalAmountSentInSats := to_double (3 / 2),
         http_log := [PostPaymentQuote (JStr ''lnbc15n'') (JStr ''USD''),
                      PatchExecuteQuote (JStr ''quote-1'')],
         invoked := [''handlePayInvoiceRequest'']\<rparr>)"
  by (simp add: example_defs handleNwcRequest_try_def decryptNwcRequestContent_def
      switch_method_def call_def pay_defs double_eval round_three_halves)

lemma pay_nothing:
  "handleNwcRequest_try example_env (example_event ''client'' ''pay nothing'') initial_world =
     (Some PAYMENT_FAILED, JNull, JObj [(''method'', JStr ''pay_invoice'')],
      initial_world
        \<lparr>http_log := [PostPaymentQuote JUndefined (JStr ''USD'')],
         error_log := [''Error making payment: Request failed with status code 400''],
         invoked := [''handlePayInvoiceRequest'']\<rparr>)"
  by (simp add: example_defs handleNwcRequest_try_def decryptNwcRequestContent_def
      switch_method_def call_def pay_defs double_eval)

text \<open>
  Claim C8, as stated, fails: the total need not be an integer. The amount of an invoice
  is its millisatoshi value divided by 1000, with no rounding to whole satoshis: after
  the payment of an invoice of 1500 millisatoshis the total is 1.5.
\<close>

theorem total_sent_fractional:
  "Rep_double (totalAmountSentInSats (handleNwcRequest example_env
     (example_event ''client'' ''pay lnbc15n'') initial_world)) = 3 / 2 \<and>
   Rep_double (totalAmountSentInSats (handleNwcRequest example_env
     (example_event ''client'' ''pay lnbc15n'') initial_world)) \<notin> \<int>"
proof -
  have e: "Rep_double (totalAmountSentInSats (handleNwcRequest example_env
          (example_event ''client'' ''pay lnbc15n'') initial_world)) = 3 / 2"
    by (simp add: handle_total pay_lnbc15n Rep_to_double round_three_halves)
  show ?thesis
  proof (rule conjI)
    show "Rep_double (totalAmountSentInSats (handleNwcRequest example_env
            (example_event ''client'' ''pay lnbc15n'') initial_world)) = 3 / 2"
      by (rule e)
    show "Rep_double (totalAmountSentInSats (handleNwcRequest example_env
            (example_event ''client'' ''pay lnbc15n'') initial_world)) \<notin> \<int>"
      unfolding e by (rule three_halves_not_int)
  qed
qed

text \<open>
  Claim C8, amended. \<open>totalAmountSentInSats\<close> is a non-negative number (a double, not
  always an integer), whatever events were handled since the start. Handling an event
  never decreases it. It is unchanged whenever the first \<open>try\<close> ends with an error code.
  It changes only for a \<open>pay_invoice\<close> request of the authorized sender, to the
  floating-point sum of the total and the amount derived from the request, and then the
  two requests of \<open>payInvoice\<close> are the ones sent to the provider and the execution of the
  quote succeeded.
\<close>

theorem total_sent_monotone:
  "totalAmountSentInSats w \<le> totalAmountSentInSats (handleNwcRequest E ev w) \<and>
   (fst (handleNwcRequest_try E ev w) \<noteq> None \<longrightarrow>
      totalAmountSentInSats (handleNwcRequest E ev w) = totalAmountSentInSats w) \<and>
   (totalAmountSentInSats (handleNwcRequest E ev w) \<noteq> totalAmountSentInSats w \<longrightarrow>
      (\<exists>p c a q receipt.
         nip04_decrypt E (ev_content ev) = Inr p \<and> JSON_parse E p = Inr c \<and>
         ev_pubkey ev = NWC_CONNECTION_PUBKEY E \<and>
         get_prop c ''method'' = JStr ''pay_invoice'' \<and>
         amountInSats E c = Inr a \<and>
         totalAmountSentInSats (handleNwcRequest E ev w) = totalAmountSentInSats w + a \<and>
         http_log (handleNwcRequest E ev w) =
           http_log w @ [PostPaymentQuote (invoice_param c) (STRIKE_SOURCE_CURRENCY E),
                         PatchExecuteQuote q] \<and>
         axios E (http_log w @ [PostPaymentQuote (invoice_param c) (STRIKE_SOURCE_CURRENCY E)])
           (PatchExecuteQuote q) = Inr receipt)) \<and>
   0 \<le> totalAmountSentInSats (handle_all E evs initial_world)"
proof -
  obtain ec r c w1 where t: "handleNwcRequest_try E ev w = (ec, r, c, w1)"
    by (cases "handleNwcRequest_try E ev w") auto
  have tot: "totalAmountSentInSats (handleNwcRequest E ev w) = totalAmountSentInSats w1"
    and log: "http_log (handleNwcRequest E ev w) = http_log w1"
    using t by (simp_all add: handle_total handle_http_log)
  have failed: "totalAmountSentInSats (handleNwcRequest E ev w) = totalAmountSentInSats w"
    if "fst (handleNwcRequest_try E ev w) \<noteq> None"
    using try_total [OF t] that t tot by auto
  have paid: "\<exists>p c a q receipt.
         nip04_decrypt E (ev_content ev) = Inr p \<and> JSON_parse E p = Inr c \<and>
         ev_pubkey ev = NWC_CONNECTION_PUBKEY E \<and>
         get_prop c ''method'' = JStr ''pay_invoice'' \<and>
         amountInSats E c = Inr a \<and>
         totalAmountSentInSats (handleNwcRequest E ev w) = totalAmountSentInSats w + a \<and>
         http_log (handleNwcRequest E ev w) =
           http_log w @ [PostPaymentQuote (invoice_param c) (STRIKE_SOURCE_CURRENCY E),
                         PatchExecuteQuote q] \<and>
         axios E (http_log w @ [PostPaymentQuote (invoice_param c) (STRIKE_SOURCE_CURRENCY E)])
           (PatchExecuteQuote q) = Inr receipt"
    if "totalAmountSentInSats (handleNwcRequest E ev w) \<noteq> totalAmountSentInSats w"
    using try_total [OF t] that unfolding tot log by blast
  have "0 \<le> totalAmountSentInSats initial_world"
    by (simp add: initial_world_def)
  then have "0 \<le> totalAmountSentInSats (handle_all E evs initial_world)"
    by (rule handle_all_nonneg)
  then show ?thesis
    using handle_mono [of w E ev] failed paid by blast
qed

theorem total_sent_monotone_witness:
  "totalAmountSentInSats (handleNwcRequest example_env (example_event ''client'' ''pay lnbc15n'')
     initial_world) \<noteq> totalAmountSentInSats initial_world \<and>
   totalAmountSentInSats initial_world \<le>
     totalAmountSentInSats (handleNwcRequest example_env (example_event ''client'' ''pay lnbc15n'')
       initial_world) \<and>
   fst (handleNwcRequest_try example_env (example_event ''client'' ''pay nothing'')
     initial_world) \<noteq> None \<and>
   totalAmountSentInSats (handleNwcRequest example_env (example_event ''client'' ''pay nothing'')
     initial_world) = totalAmountSentInSats initial_world"
proof -
  have a: "totalAmountSentInSats (handleNwcRequest example_env
             (example_event ''client'' ''pay lnbc15n'') initial_world) \<noteq>
           totalAmountSentInSats initial_world"
    by (simp add: handle_total pay_lnbc15n)
       (simp add: initial_world_def double_eval round_three_halves)
  have b: "fst (handleNwcRequest_try example_env (example_event ''client'' ''pay nothing'')
             initial_world) \<noteq> None"
    by (simp add: pay_nothing)
  from total_sent_monotone
         [of initial_world example_env "example_event ''client'' ''pay lnbc15n''" "[]"]
       total_sent_monotone
         [of initial_world example_env "example_event ''client'' ''pay nothing''" "[]"]
       a b
  show ?thesis by blast
qed

lemma round_tenth: "round_double (1 / 10) = 3602879701896397 / 36028797018963968"
  by code_simp

lemma round_fifth: "round_double (1 / 5) = 3602879701896397 / 18014398509481984"
  by code_simp

lemma round_tenth_plus_fifth:
  "round_double (10808639105689191 / 36028797018963968) = 1351079888211149 / 4503599627370496"
  by code_simp

lemma pay_lnbc1n_lnbc2n:
  "pay_all example_env
     [request ''pay_invoice'' [(''invoice'', JStr ''lnbc1n'')],
      request ''pay_invoice'' [(''invoice'', JStr ''lnbc2n'')]] initial_world =
     ([Inr (JObj [(''preimage'', JStr ''gfy'')]), Inr (JObj [(''preimage'', JStr ''gfy'')])],
      initial_world
        \<lparr>totalAmountSentInSats :=
           js_divide (to_double 100) (to_double 1000) + js_divide (to_double 200) (to_double 1000),
         http_log := [PostPaymentQuote (JStr ''lnbc1n'') (JStr ''USD''),
                      PatchExecuteQuote (JStr ''quote-1''),
                      PostPaymentQuote (JStr ''lnbc2n'') (JStr ''USD''),
                      PatchExecuteQuote (JStr ''quote-1'')]\<rparr>)"
  by (simp add: example_defs pay_defs double_zero_plus less_double_def Rep_plus Rep_to_double
      Rep_js_divide round_double_numeral round_tenth round_fifth round_tenth_plus_fifth)

lemma round_millis:
  "round_double (3 / 1000) = 3458764513820541 / 1152921504606846976"
  "round_double (2063 / 1000) = 4645463015632667 / 2251799813685248"
  "round_double (467 / 500) = 8412724103928087 / 9007199254740992"
  "round_double (2381935828517746045 / 1152921504606846976) = 4652218415073723 / 2251799813685248"
  "round_double (27021597764222979 / 9007199254740992) = 6755399441055745 / 2251799813685248"
  by code_simp+

text \<open>Rounding can also make the guard reject a payment that the exact amounts admit:
  with a ceiling of 3 satoshis, after invoices of 3 and 2063 millisatoshis the third, of
  934 millisatoshis, is rejected, because the double sum is 3.0000000000000004.\<close>

lemma pay_rejected_by_rounding:
  "fst (pay_all (example_env\<lparr>TOTAL_MAX_SEND_AMOUNT_IN_SATS := to_double 3\<rparr>)
     [request ''pay_invoice'' [(''invoice'', JStr ''lnbc30p'')],
      request ''pay_invoice'' [(''invoice'', JStr ''lnbc20630p'')],
      request ''pay_invoice'' [(''invoice'', JStr ''lnbc9340p'')]] initial_world) =
     [Inr (JObj [(''preimage'', JStr ''gfy'')]), Inr (JObj [(''preimage'', JStr ''gfy'')]),
      Inl QUOTA_EXCEEDED]"
  by (simp add: example_defs pay_defs double_zero_plus less_double_def Rep_plus Rep_to_double
      Rep_js_divide round_double_numeral round_millis)

text \<open>
  Claim C7, as stated, fails: the total is accumulated in floating point and need not be
  the exact sum of the amounts. After the payment of an invoice of 100 millisatoshis and
  one of 200 millisatoshis, both successful, the total is the double
  0.30000000000000004, which is neither the exact sum of the two derived amounts (the
  doubles nearest to 0.1 and 0.2) nor 3/10.
\<close>

theorem sequential_payments_rounded:
  "fst (pay_all example_env
     [request ''pay_invoice'' [(''invoice'', JStr ''lnbc1n'')],
      request ''pay_invoice'' [(''invoice'', JStr ''lnbc2n'')]] initial_world) =
     [Inr (JObj [(''preimage'', JStr ''gfy'')]), Inr (JObj [(''preimage'', JStr ''gfy'')])] \<and>
   map (amountInSats example_env)
     [request ''pay_invoice'' [(''invoice'', JStr ''lnbc1n'')],
      request ''pay_invoice'' [(''invoice'', JStr ''lnbc2n'')]] =
     [Inr (js_divide (to_double 100) (to_double 1000)),
      Inr (js_divide (to_double 200) (to_double 1000))] \<and>
   Rep_double (totalAmountSentInSats (snd (pay_all example_env
     [request ''pay_invoice'' [(''invoice'', JStr ''lnbc1n'')],
      request ''pay_invoice'' [(''invoice'', JStr ''lnbc2n'')]] initial_world))) =
     1351079888211149 / 4503599627370496 \<and>
   Rep_double (js_divide (to_double 100) (to_double 1000)) +
     Rep_double (js_divide (to_double 200) (to_double 1000)) =
     10808639105689191 / 36028797018963968 \<and>
   (1351079888211149 / 4503599627370496 :: rat) \<noteq> 10808639105689191 / 36028797018963968 \<and>
   (1351079888211149 / 4503599627370496 :: rat) \<noteq> 3 / 10"
proof -
  have amounts: "map (amountInSats example_env)
     [request ''pay_invoice'' [(''invoice'', JStr ''lnbc1n'')],
      request ''pay_invoice'' [(''invoice'', JStr ''lnbc2n'')]] =
     [Inr (js_divide (to_double 100) (to_double 1000)),
      Inr (js_divide (to_double 200) (to_double 1000))]"
    by (simp add: example_defs pay_defs)
  have total: "Rep_double (js_divide (to_double 100) (to_double 1000) +
                 js_divide (to_double 200) (to_double 1000)) =
               1351079888211149 / 4503599627370496"
    by (simp add: Rep_plus Rep_to_double Rep_js_divide round_double_numeral round_tenth
        round_fifth round_tenth_plus_fifth)
  have exact: "Rep_double (js_divide (to_double 100) (to_double 1000)) +
     Rep_double (js_divide (to_double 200) (to_double 1000)) =
     10808639105689191 / 36028797018963968"
    by (simp add: Rep_to_double Rep_js_divide round_double_numeral round_tenth round_fifth)
  have results: "fst (pay_all example_env
     [request ''pay_invoice'' [(''invoice'', JStr ''lnbc1n'')],
      request ''pay_invoice'' [(''invoice'', JStr ''lnbc2n'')]] initial_world) =
     [Inr (JObj [(''preimage'', JStr ''gfy'')]), Inr (JObj [(''preimage'', JStr ''gfy'')])]"
    by (simp only: pay_lnbc1n_lnbc2n fst_conv)
  have total': "Rep_double (totalAmountSentInSats (snd (pay_all example_env
     [request ''pay_invoice'' [(''invoice'', JStr ''lnbc1n'')],
      request ''pay_invoice'' [(''invoice'', JStr ''lnbc2n'')]] initial_world))) =
     1351079888211149 / 4503599627370496"
    by (simp only: pay_lnbc1n_lnbc2n snd_conv) (simp add: total)
  have ne: "(1351079888211149 / 4503599627370496 :: rat) \<noteq>
              10808639105689191 / 36028797018963968"
           "(1351079888211149 / 4503599627370496 :: rat) \<noteq> 3 / 10"
    by simp_all
  from results amounts total' exact ne show ?thesis
    by blast
qed

text \<open>
  Claim C7, amended. Let the ceiling be below \<open>2^53\<close> in magnitude and the derived amounts
  \<open>as\<close> whole numbers of satoshis. Starting from a total of zero, after pay requests
  handled one after the other, all successful, with derived amounts \<open>as\<close>, the total is
  exactly the sum of \<open>as\<close>; and a further pay request whose derived amount is the ceiling
  minus the total plus one is rejected with \<open>QUOTA_EXCEEDED\<close>, the state unchanged.
\<close>

theorem sequential_payments_sum:
  assumes run: "pay_all E cs w = (rs, w')"
      and ok: "\<forall>r \<in> set rs. \<exists>v. r = Inr v"
      and amounts: "map (amountInSats E) cs = map Inr as"
      and zero: "totalAmountSentInSats w = 0"
      and whole: "\<forall>a \<in> set as. \<exists>n :: nat. Rep_double a = of_nat n"
      and ceiling: "- (2 ^ 53) \<le> Rep_double (TOTAL_MAX_SEND_AMOUNT_IN_SATS E)"
                   "Rep_double (TOTAL_MAX_SEND_AMOUNT_IN_SATS E) < 2 ^ 53"
  shows "Rep_double (totalAmountSentInSats w') = sum_list (map Rep_double as) \<and>
         (\<forall>c a. amountInSats E c = Inr a \<and>
                Rep_double a = Rep_double (TOTAL_MAX_SEND_AMOUNT_IN_SATS E) -
                               Rep_double (totalAmountSentInSats w') + 1 \<longrightarrow>
              handlePayInvoiceRequest E c w' = (Inl QUOTA_EXCEEDED, w'))"
proof -
  have inv: "\<exists>t :: nat. Rep_double (totalAmountSentInSats w') = of_nat t \<and>
               of_nat t = of_nat t0 + sum_list (map Rep_double as)"
    if "Rep_double (totalAmountSentInSats w) = of_nat t0" for t0 :: nat
    using run ok amounts whole that
  proof (induction cs arbitrary: w rs as t0)
    case Nil
    then show ?case by auto
  next
    case (Cons c cs)
    obtain r w1 where h: "handlePayInvoiceRequest E c w = (r, w1)"
      by (cases "handlePayInvoiceRequest E c w") auto
    obtain rs1 where t: "pay_all E cs w1 = (rs1, w')" and rs: "rs = r # rs1"
      using Cons.prems(1) h by (auto split: prod.splits)
    obtain a as1 where as: "as = a # as1" and a: "amountInSats E c = Inr a"
        and as1: "map (amountInSats E) cs = map Inr as1"
      using Cons.prems(3) by (cases as) auto
    obtain n :: nat where n: "Rep_double a = of_nat n"
      using Cons.prems(4) as by auto
    have "\<exists>v. r = Inr v"
      using Cons.prems(2) rs by simp
    then have adm: "totalAmountSentInSats w + a \<le> TOTAL_MAX_SEND_AMOUNT_IN_SATS E"
      and w1: "totalAmountSentInSats w1 = totalAmountSentInSats w + a"
      using pay_outcome [OF h] a by auto
    have sum: "Rep_double (totalAmountSentInSats w + a) = round_double (of_nat (t0 + n))"
      by (simp add: Rep_plus Cons.prems(5) n)
    have le: "t0 + n \<le> 2 ^ 53"
    proof (rule ccontr)
      assume "\<not> t0 + n \<le> 2 ^ 53"
      then have "(2 ^ 53 :: nat) \<le> t0 + n" by simp
      then have "(of_nat (2 ^ 53) :: rat) \<le> of_nat (t0 + n)"
        by (simp only: of_nat_le_iff)
      moreover have "round_double (of_nat (2 ^ 53)) = of_nat (2 ^ 53)"
        by (intro round_double_of_nat) simp
      ultimately have "of_nat (2 ^ 53) \<le> round_double (of_nat (t0 + n))"
        by (intro round_double_ge_fixed)
      then have "(2 ^ 53 :: rat) \<le> Rep_double (TOTAL_MAX_SEND_AMOUNT_IN_SATS E)"
        using adm by (simp add: less_eq_double_def sum)
      then show False
        using ceiling(2) by simp
    qed
    then have "round_double (of_nat (t0 + n)) = of_nat (t0 + n)"
      by (rule round_double_of_nat)
    then have t1: "Rep_double (totalAmountSentInSats w1) = of_nat (t0 + n)"
      by (simp add: w1 sum)
    obtain t' :: nat where
      "Rep_double (totalAmountSentInSats w') = of_nat t'"
      "(of_nat t' :: rat) = of_nat (t0 + n) + sum_list (map Rep_double as1)"
      using Cons.IH [OF t _ as1 _ t1] Cons.prems(2,4) rs as by auto
    then show ?case
      using as n by (intro exI [of _ t']) simp
  qed
  have "Rep_double (totalAmountSentInSats w) = of_nat 0"
    using zero by (simp add: Rep_zero)
  then obtain t :: nat where t: "Rep_double (totalAmountSentInSats w') = of_nat t"
      "(of_nat t :: rat) = of_nat 0 + sum_list (map Rep_double as)"
    using inv [of 0] by blast
  have total: "Rep_double (totalAmountSentInSats w') = sum_list (map Rep_double as)"
    using t by simp
  define M where "M = Rep_double (TOTAL_MAX_SEND_AMOUNT_IN_SATS E)"
  have above: "M < round_double (M + 1)"
  proof -
    have b: "\<bar>\<lfloor>M\<rfloor> + 1\<bar> \<le> 2 ^ 53"
    proof -
      have "(of_int (- (2 ^ 53)) :: rat) \<le> M"
        using ceiling(1) by (simp add: M_def)
      then have lo: "- (2 ^ 53) \<le> \<lfloor>M\<rfloor>"
        by (simp only: le_floor_iff)
      have "M < of_int (2 ^ 53)"
        using ceiling(2) by (simp add: M_def)
      then have hi: "\<lfloor>M\<rfloor> < 2 ^ 53"
        by (simp only: floor_less_iff)
      from lo hi show ?thesis by linarith
    qed
    have "round_double (of_int (\<lfloor>M\<rfloor> + 1)) = of_int (\<lfloor>M\<rfloor> + 1)"
      using b by (rule round_double_of_int)
    moreover have "(of_int (\<lfloor>M\<rfloor> + 1) :: rat) \<le> M + 1"
      by simp
    ultimately have "of_int (\<lfloor>M\<rfloor> + 1) \<le> round_double (M + 1)"
      by (rule round_double_ge_fixed)
    moreover have "M < of_int (\<lfloor>M\<rfloor> + 1)"
      by linarith
    ultimately show ?thesis by simp
  qed
  have "handlePayInvoiceRequest E c w' = (Inl QUOTA_EXCEEDED, w')"
    if c: "amountInSats E c = Inr a"
      and a: "Rep_double a = Rep_double (TOTAL_MAX_SEND_AMOUNT_IN_SATS E) -
                Rep_double (totalAmountSentInSats w') + 1"
    for c a
  proof -
    have "Rep_double (totalAmountSentInSats w') + Rep_double a = M + 1"
      by (simp add: a M_def)
    then have "Rep_double (totalAmountSentInSats w' + a) = round_double (M + 1)"
      by (simp only: Rep_plus)
    then have "TOTAL_MAX_SEND_AMOUNT_IN_SATS E < totalAmountSentInSats w' + a"
      using above by (simp add: less_double_def M_def)
    then show ?thesis
      using c by (simp add: handlePayInvoiceRequest_def)
  qed
  then show ?thesis
    using total by blast
qed

theorem sequential_payments_sum_witness:
  "pay_all example_env
     [request ''pay_invoice'' [(''invoice'', JStr ''lnbc20u'')],
      request ''pay_invoice'' [(''invoice'', JStr ''lnbc20u'')]] initial_world =
     ([Inr (JObj [(''preimage'', JStr ''gfy'')]), Inr (JObj [(''preimage'', JStr ''gfy'')])],
      initial_world
        \<lparr>totalAmountSentInSats := to_double 4000,
         http_log := [PostPaymentQuote (JStr ''lnbc20u'') (JStr ''USD''),
                      PatchExecuteQuote (JStr ''quote-1''),
                      PostPaymentQuote (JStr ''lnbc20u'') (JStr ''USD''),
                      PatchExecuteQuote (JStr ''quote-1'')]\<rparr>) \<and>
   Rep_double (to_double 4000) = sum_list (map Rep_double [to_double 2000, to_double 2000]) \<and>
   amountInSats example_env (request ''pay_invoice'' [(''invoice'', JStr ''lnbc60010n'')]) =
     Inr (to_double 6001) \<and>
   Rep_double (to_double 6001) =
     Rep_double (TOTAL_MAX_SEND_AMOUNT_IN_SATS example_env) - Rep_double (to_double 4000) + 1 \<and>
   fst (handlePayInvoiceRequest example_env
     (request ''pay_invoice'' [(''invoice'', JStr ''lnbc60010n'')])
     (initial_world
        \<lparr>totalAmountSentInSats := to_double 4000,
         http_log := [PostPaymentQuote (JStr ''lnbc20u'') (JStr ''USD''),
                      PatchExecuteQuote (JStr ''quote-1''),
                      PostPaymentQuote (JStr ''lnbc20u'') (JStr ''USD''),
                      PatchExecuteQuote (JStr ''quote-1'')]\<rparr>)) = Inl QUOTA_EXCEEDED"
proof -
  let ?c = "request ''pay_invoice'' [(''invoice'', JStr ''lnbc20u'')]"
  let ?d = "request ''pay_invoice'' [(''invoice'', JStr ''lnbc60010n'')]"
  let ?w = "initial_world
        \<lparr>totalAmountSentInSats := to_double 4000,
         http_log := [PostPaymentQuote (JStr ''lnbc20u'') (JStr ''USD''),
                      PatchExecuteQuote (JStr ''quote-1''),
                      PostPaymentQuote (JStr ''lnbc20u'') (JStr ''USD''),
                      PatchExecuteQuote (JStr ''quote-1'')]\<rparr>"
  let ?rs = "[Inr (JObj [(''preimage'', JStr ''gfy'')]), Inr (JObj [(''preimage'', JStr ''gfy'')])]"
  have run: "pay_all example_env [?c, ?c] initial_world = (?rs, ?w)"
    by (simp add: example_defs pay_defs double_eval)
  have ok: "\<forall>r \<in> set ?rs. \<exists>v. r = Inr v"
    by simp
  have amounts: "map (amountInSats example_env) [?c, ?c] =
                   map Inr [to_double 2000, to_double 2000]"
    by (simp add: example_defs pay_defs double_eval)
  have zero: "totalAmountSentInSats initial_world = 0"
    by (simp add: initial_world_def)
  have whole: "\<forall>a \<in> set [to_double 2000, to_double 2000]. \<exists>n :: nat. Rep_double a = of_nat n"
    by (auto simp: Rep_to_double round_double_numeral intro: exI [of _ "2000 :: nat"])
  have ceiling: "- (2 ^ 53) \<le> Rep_double (TOTAL_MAX_SEND_AMOUNT_IN_SATS example_env)"
      "Rep_double (TOTAL_MAX_SEND_AMOUNT_IN_SATS example_env) < 2 ^ 53"
    by (simp_all add: example_defs Rep_to_double round_double_numeral)
  have next_amount: "amountInSats example_env ?d = Inr (to_double 6001)"
    by (simp add: example_defs pay_defs double_eval)
  have tot: "totalAmountSentInSats ?w = to_double 4000"
    by simp
  have eq: "Rep_double (to_double 6001) =
     Rep_double (TOTAL_MAX_SEND_AMOUNT_IN_SATS example_env) - Rep_double (to_double 4000) + 1"
    by (simp add: example_defs Rep_to_double round_double_numeral)
  have sum: "Rep_double (to_double 4000) =
               sum_list (map Rep_double [to_double 2000, to_double 2000])"
    by (simp add: Rep_to_double round_double_numeral)
  from sequential_payments_sum [OF run ok amounts zero whole ceiling] next_amount eq
  have "handlePayInvoiceRequest example_env ?d ?w = (Inl QUOTA_EXCEEDED, ?w)"
    unfolding tot by blast
  then show ?thesis
    using run next_amount eq sum by simp
qed

end
